theory Spec2Isabelle
  imports Main "HOL-Library.AList"
begin

section \<open>Python values, errors and the standard-library functions the code calls\<close>

text \<open>
  A naive Python \<^verbatim>\<open>datetime\<close> is a point on the time line; it is represented by its
  position in microseconds, so that \<^verbatim>\<open>==\<close>, \<^verbatim>\<open>>=\<close> and \<^verbatim>\<open>>\<close> of the source are the
  comparisons of \<^typ>\<open>int\<close>.
\<close>

type_synonym datetime = int
type_synonym url = string

text \<open>
  Every exception the modelled code can raise is a value. \<open>UnsupportedProjection\<close>,
  \<open>DateConversionError\<close>, \<open>AttributeExpected\<close>, \<open>UnknownDescription\<close>,
  \<open>MissingProjectionVariable\<close> and \<open>MultipleValues\<close> are the \<^verbatim>\<open>RuntimeError\<close>s raised by
  \<^verbatim>\<open>itscube.py\<close> itself (lines 778, 721, 728, 910, 1220 and 1254/1262/1507/1561);
  \<open>RegionError\<close> wraps what the date and cropping part of \<^verbatim>\<open>preprocess_dataset\<close>
  (lines 782-819) can raise, among them the \<^verbatim>\<open>RuntimeError\<close> of line 813.
\<close>

datatype region_error = UnexpectedCellSize | RegionValueError | RegionAttributeError | RegionIndexError

datatype error =
    IndexError
  | ValueError
  | AttributeError
  | KeyError
  | TypeError
  | IOError
  | UnsupportedProjection
  | RegionError region_error
  | DateConversionError
  | AttributeExpected
  | UnknownDescription
  | MissingProjectionVariable
  | MultipleValues

text \<open>
  \<^verbatim>\<open>datetime.strptime(value, format)\<close> and \<^verbatim>\<open>value.strftime(format)\<close> belong to the
  Python standard library, not to the repository: they are parameters of the model.
  So is \<^verbatim>\<open>int(s)\<close> of a string. Both return \<open>None\<close> where Python raises
  \<^verbatim>\<open>ValueError\<close>.
\<close>

record pylib =
  strptime :: "string \<Rightarrow> string \<Rightarrow> datetime option"
  strftime :: "datetime \<Rightarrow> string \<Rightarrow> string"
  int_of_str :: "string \<Rightarrow> int option"

definition DATE_FORMAT :: string where
  "DATE_FORMAT = ''%Y%m%d''"

subsection \<open>Strings: \<^verbatim>\<open>os.path.basename\<close> and \<^verbatim>\<open>str.split\<close>\<close>

definition basename :: "string \<Rightarrow> string" where
  "basename p = rev (takeWhile (\<lambda>c. c \<noteq> CHR ''/'') (rev p))"

fun str_split :: "char \<Rightarrow> string \<Rightarrow> string list" where
  "str_split sep [] = [[]]"
| "str_split sep (c # cs) =
     (if c = sep then [] # str_split sep cs
      else (case str_split sep cs of
              [] \<Rightarrow> [[c]]
            | w # ws \<Rightarrow> (c # w) # ws))"

definition token_at :: "string list \<Rightarrow> nat \<Rightarrow> error + string" where
  "token_at url_tokens i =
     (if i < length url_tokens then Inr (url_tokens ! i) else Inl IndexError)"

definition date_at :: "pylib \<Rightarrow> string list \<Rightarrow> nat \<Rightarrow> error + datetime" where
  "date_at L url_tokens i =
     (case token_at url_tokens i of
        Inl e \<Rightarrow> Inl e
      | Inr t \<Rightarrow> (case strptime L t DATE_FORMAT of
                   None \<Rightarrow> Inl ValueError
                 | Some d \<Rightarrow> Inr d))"


subsection \<open>\<^verbatim>\<open>str(n)\<close> of an integer\<close>

definition digit_char :: "nat \<Rightarrow> char" where
  "digit_char d = ''0123456789'' ! d"

function str_nat :: "nat \<Rightarrow> string" where
  "str_nat n = (if n < 10 then [digit_char n] else str_nat (n div 10) @ [digit_char (n mod 10)])"
  by pat_completeness auto
termination
  by (relation "measure id") auto

declare str_nat.simps [simp del]

definition str_int :: "int \<Rightarrow> string" where
  "str_int i = (if i < 0 then CHR ''-'' # str_nat (nat (- i)) else str_nat (nat i))"

section \<open>Data model\<close>

text \<open>
  Attribute values of a NetCDF granule: numbers, strings and arrays; \<open>ADate\<close> is the
  \<^verbatim>\<open>datetime\<close> that \<^verbatim>\<open>get_data_var_attr(..., to_date=True)\<close> returns. Numbers are
  integers in the model: the code compares and copies them, it never computes with them.
\<close>

datatype aval = ANum int | AStr string | AArr "aval list" | ADate datetime

type_synonym attrs = "(string \<times> aval) list"

text \<open>A cell of a two-dimensional variable; \<open>None\<close> is the missing-value marker (NaN).\<close>

type_synonym cell = "int option"
type_synonym grid2 = "cell list list"

text \<open>One variable of a granule (\<^verbatim>\<open>xr.DataArray\<close>) and one opened granule (\<^verbatim>\<open>xr.Dataset\<close>).\<close>

record data_array =
  da_values :: grid2
  da_attrs :: attrs

record granule =
  g_vars :: "(string \<times> data_array) list"
  g_attrs :: attrs

text \<open>
  A variable of the cube: three-dimensional (one two-dimensional array per position of
  the \<^verbatim>\<open>mid_date\<close> axis), one-dimensional (one value per position), or the scalar
  projection descriptor, which carries attributes only. The attributes of the first two
  kinds (descriptions, units, \<^verbatim>\<open>grid_mapping\<close>) decide no control flow and are left out.
\<close>

datatype cube_var =
    Spatial "grid2 list"
  | PerRecord "aval list"
  | Scalar attrs

record dataset =
  d_vars :: "(string \<times> cube_var) list"
  d_mid_date :: "datetime option list"
  d_attrs :: attrs

datatype layers_value = LayersNone | LayersEmptyDict | LayersDataset dataset

text \<open>The mutable fields of an \<^verbatim>\<open>ITSCube\<close> object.\<close>

record cube =
  ds :: "granule list"
  dates :: "datetime option list"
  urls :: "url list"
  num_urls_from_api :: "nat option"
  skipped_proj_granules :: "(int \<times> url list) list"
  skipped_empty_granules :: "url list"
  skipped_double_granules :: "url list"
  layers :: layers_value

text \<open>
  What is fixed during a run: the target projection, the lengths of \<^verbatim>\<open>self.grid_x\<close>
  and \<^verbatim>\<open>self.grid_y\<close>, and the class attribute \<^verbatim>\<open>NUM_GRANULES_TO_WRITE\<close> (set from the
  command line).
\<close>

record config =
  projection :: string
  grid_x_len :: nat
  grid_y_len :: nat
  NUM_GRANULES_TO_WRITE :: nat

text \<open>
  The collaborators of a run: opening a granule (\<^verbatim>\<open>s3.open\<close> and \<^verbatim>\<open>xr.open_dataset\<close>),
  and lines 782-819 of \<^verbatim>\<open>preprocess_dataset\<close>, which compute the middle date and crop
  the granule to the grid with floating-point coordinate comparisons: \<open>None\<close> is an
  empty region, \<open>Some (mid_date, mask_data)\<close> the cropped record.
\<close>

record env =
  open_dataset :: "url \<Rightarrow> error + granule"
  crop_region :: "granule \<Rightarrow> region_error + (datetime \<times> granule) option"

text \<open>
  The output store: the datasets that \<^verbatim>\<open>to_zarr\<close> has put into it, in order. A run
  starts on the empty store (\<^verbatim>\<open>init_output_store\<close> removes a local store and takes a
  remote one to be new).
\<close>

type_synonym store = "dataset list"

section \<open>Granule deduplication\<close>

text \<open>
  \<^verbatim>\<open>ITSCube.get_tokens_from_filename\<close>: acquisition date, processing date and path/row
  of both images, read from fixed positions of the file name. The components are
  evaluated in the order of the source, so the first failing access decides the error.
\<close>

type_synonym tokens = "datetime \<times> datetime \<times> string \<times> datetime \<times> datetime \<times> string"

definition get_tokens_from_filename :: "pylib \<Rightarrow> string \<Rightarrow> error + tokens" where
  "get_tokens_from_filename L filename =
     (let url_tokens = str_split CHR ''_'' (basename filename) in
      case date_at L url_tokens 3 of Inl e \<Rightarrow> Inl e | Inr url_acq_date_1 \<Rightarrow>
      case date_at L url_tokens 4 of Inl e \<Rightarrow> Inl e | Inr url_proc_date_1 \<Rightarrow>
      case token_at url_tokens 2 of Inl e \<Rightarrow> Inl e | Inr url_path_row_1 \<Rightarrow>
      case date_at L url_tokens 11 of Inl e \<Rightarrow> Inl e | Inr url_acq_date_2 \<Rightarrow>
      case date_at L url_tokens 12 of Inl e \<Rightarrow> Inl e | Inr url_proc_date_2 \<Rightarrow>
      case token_at url_tokens 10 of Inl e \<Rightarrow> Inl e | Inr url_path_row_2 \<Rightarrow>
      Inr (url_acq_date_1, url_proc_date_1, url_path_row_1,
           url_acq_date_2, url_proc_date_2, url_path_row_2))"

text \<open>The physical-pair key: \<^verbatim>\<open>'_'.join([acq_1, path_row_1, acq_2, path_row_2])\<close>.\<close>

definition granule_id :: "pylib \<Rightarrow> tokens \<Rightarrow> string" where
  "granule_id L t =
     (case t of (url_acq_1, url_proc_1, path_row_1, url_acq_2, url_proc_2, path_row_2) \<Rightarrow>
        strftime L url_acq_1 DATE_FORMAT @ ''_'' @ path_row_1 @ ''_'' @
        strftime L url_acq_2 DATE_FORMAT @ ''_'' @ path_row_2)"

definition proc_dates :: "tokens \<Rightarrow> datetime \<times> datetime" where
  "proc_dates t = (case t of (a1, p1, r1, a2, p2, r2) \<Rightarrow> (p1, p2))"

text \<open>
  The first inner loop (lines 258-270): is there a kept identifier whose two processing
  dates both equal the incoming ones? The loop breaks at the first such identifier.
\<close>

fun find_identical :: "pylib \<Rightarrow> datetime \<Rightarrow> datetime \<Rightarrow> url list \<Rightarrow> error + bool" where
  "find_identical L url_proc_1 url_proc_2 [] = Inr False"
| "find_identical L url_proc_1 url_proc_2 (found_url # rest) =
     (case get_tokens_from_filename L found_url of
        Inl e \<Rightarrow> Inl e
      | Inr t \<Rightarrow>
          (if url_proc_1 = fst (proc_dates t) \<and> url_proc_2 = snd (proc_dates t)
           then Inr True
           else find_identical L url_proc_1 url_proc_2 rest))"

text \<open>
  The second inner loop (lines 277-293) collects \<^verbatim>\<open>remove_urls\<close>, with the source's
  \<^verbatim>\<open>if\<close>/\<^verbatim>\<open>elif\<close> kept as two branches.
\<close>

fun collect_remove_urls :: "pylib \<Rightarrow> datetime \<Rightarrow> datetime \<Rightarrow> url list \<Rightarrow> error + url list" where
  "collect_remove_urls L url_proc_1 url_proc_2 [] = Inr []"
| "collect_remove_urls L url_proc_1 url_proc_2 (found_url # rest) =
     (case get_tokens_from_filename L found_url of
        Inl e \<Rightarrow> Inl e
      | Inr t \<Rightarrow>
          (case collect_remove_urls L url_proc_1 url_proc_2 rest of
             Inl e \<Rightarrow> Inl e
           | Inr remove_urls \<Rightarrow>
               (if url_proc_1 \<ge> fst (proc_dates t) \<and> url_proc_2 \<ge> snd (proc_dates t)
                then Inr (found_url # remove_urls)
                else if url_proc_1 > fst (proc_dates t)
                then Inr (found_url # remove_urls)
                else Inr remove_urls)))"

text \<open>
  The dictionary \<^verbatim>\<open>keep_urls\<close> keeps insertion order (its \<^verbatim>\<open>values()\<close> are
  concatenated at the end), so it is an association list; \<open>AList.update\<close> replaces the
  value of a present key in place and appends an absent key.
\<close>

type_synonym keep_urls = "(string \<times> url list) list"

text \<open>One iteration of the main loop (lines 239-313) on \<open>(keep_urls, skipped_double_granules)\<close>.\<close>

definition skip_step :: "pylib \<Rightarrow> keep_urls \<times> url list \<Rightarrow> url \<Rightarrow> error + keep_urls \<times> url list" where
  "skip_step L s each_url =
     (case s of (keep, skipped) \<Rightarrow>
      case get_tokens_from_filename L each_url of
        Inl e \<Rightarrow> Inl e
      | Inr t \<Rightarrow>
          (case map_of keep (granule_id L t) of
             None \<Rightarrow> Inr (AList.update (granule_id L t) [each_url] keep, skipped)
           | Some found \<Rightarrow>
               (case find_identical L (fst (proc_dates t)) (snd (proc_dates t)) found of
                  Inl e \<Rightarrow> Inl e
                | Inr True \<Rightarrow>
                    Inr (AList.update (granule_id L t) (found @ [each_url]) keep, skipped)
                | Inr False \<Rightarrow>
                    (case collect_remove_urls L (fst (proc_dates t)) (snd (proc_dates t)) found of
                       Inl e \<Rightarrow> Inl e
                     | Inr remove_urls \<Rightarrow>
                         (if length remove_urls \<noteq> 0
                          then Inr (AList.update (granule_id L t)
                                      (filter (\<lambda>each. each \<notin> set remove_urls) found @ [each_url])
                                      keep,
                                    skipped @ remove_urls)
                          else Inr (keep, skipped @ [each_url]))))))"

fun skip_loop :: "pylib \<Rightarrow> keep_urls \<times> url list \<Rightarrow> url list \<Rightarrow> error + keep_urls \<times> url list" where
  "skip_loop L s [] = Inr s"
| "skip_loop L s (each_url # rest) =
     (case skip_step L s each_url of
        Inl e \<Rightarrow> Inl e
      | Inr s' \<Rightarrow> skip_loop L s' rest)"

text \<open>
  \<^verbatim>\<open>skip_duplicate_granules\<close> returns \<^verbatim>\<open>granules\<close> and leaves the rejected
  identifiers in \<^verbatim>\<open>self.skipped_double_granules\<close>, which it resets at its start. An
  exception ends the run; the state it leaves behind is not modelled.
\<close>

definition skip_duplicate_granules :: "pylib \<Rightarrow> cube \<Rightarrow> url list \<Rightarrow> error + url list \<times> cube" where
  "skip_duplicate_granules L st found_urls =
     (case skip_loop L ([], []) found_urls of
        Inl e \<Rightarrow> Inl e
      | Inr (keep, skipped) \<Rightarrow>
          Inr (concat (map snd keep),
               st\<lparr>num_urls_from_api := Some (length found_urls),
                  skipped_double_granules := skipped\<rparr>))"


section \<open>Granule normalizer and layer accumulator\<close>

abbreviation DataVars_MAPPING :: string where "DataVars_MAPPING \<equiv> ''mapping''"
abbreviation DataVars_UTM_PROJECTION :: string where "DataVars_UTM_PROJECTION \<equiv> ''UTM_Projection''"
abbreviation DataVars_POLAR_STEREOGRAPHIC :: string where
  "DataVars_POLAR_STEREOGRAPHIC \<equiv> ''Polar_Stereographic''"

text \<open>\<^verbatim>\<open>int(x)\<close> of an attribute value.\<close>

definition py_int :: "pylib \<Rightarrow> aval \<Rightarrow> error + int" where
  "py_int L x =
     (case x of
        ANum n \<Rightarrow> Inr n
      | AStr s \<Rightarrow> (case int_of_str L s of None \<Rightarrow> Inl ValueError | Some n \<Rightarrow> Inr n)
      | AArr [ANum n] \<Rightarrow> Inr n
      | _ \<Rightarrow> Inl TypeError)"

text \<open>
  The 5-tuple \<^verbatim>\<open>(empty, int(ds_projection), mid_date, ds_url, mask_data)\<close> that
  \<^verbatim>\<open>preprocess_dataset\<close> returns and \<^verbatim>\<open>add_layer\<close> takes.
\<close>

type_synonym layer_result = "bool \<times> int \<times> datetime option \<times> url \<times> granule option"

text \<open>
  \<^verbatim>\<open>preprocess_dataset\<close> (lines 732-823). The branches for \<^verbatim>\<open>UTM_Projection\<close> and
  \<^verbatim>\<open>Polar_Stereographic\<close> are commented out in the source (lines 766-770), so the only
  test is \<^verbatim>\<open>DataVars.MAPPING in ds\<close>. Attribute-style access (\<^verbatim>\<open>ds.mapping.spatial_epsg\<close>)
  raises \<^verbatim>\<open>AttributeError\<close> on a missing attribute.
\<close>

definition preprocess_dataset :: "pylib \<Rightarrow> env \<Rightarrow> config \<Rightarrow> granule \<Rightarrow> url \<Rightarrow> error + layer_result" where
  "preprocess_dataset L E cfg g ds_url =
     (case map_of (g_vars g) DataVars_MAPPING of
        None \<Rightarrow> Inl UnsupportedProjection
      | Some mapping \<Rightarrow>
          (case map_of (da_attrs mapping) ''spatial_epsg'' of
             None \<Rightarrow> Inl AttributeError
           | Some ds_projection \<Rightarrow>
               (case py_int L ds_projection of
                  Inl e \<Rightarrow> Inl e
                | Inr p \<Rightarrow>
                    (if str_int p = projection cfg
                     then (case crop_region E g of
                             Inl e \<Rightarrow> Inl (RegionError e)
                           | Inr None \<Rightarrow> Inr (True, p, None, ds_url, None)
                           | Inr (Some (mid_date, mask_data)) \<Rightarrow>
                               Inr (False, p, Some mid_date, ds_url, Some mask_data))
                     else Inr (False, p, None, ds_url, None)))))"

text \<open>\<^verbatim>\<open>add_layer\<close> (lines 339-361).\<close>

definition add_layer :: "cube \<Rightarrow> layer_result \<Rightarrow> cube" where
  "add_layer st r =
     (case r of (is_empty, layer_projection, mid_date, url, data) \<Rightarrow>
        (case data of
           Some d \<Rightarrow> st\<lparr>dates := dates st @ [mid_date], ds := ds st @ [d], urls := urls st @ [url]\<rparr>
         | None \<Rightarrow>
             (if is_empty
              then st\<lparr>skipped_empty_granules := skipped_empty_granules st @ [url]\<rparr>
              else st\<lparr>skipped_proj_granules :=
                        AList.update layer_projection
                          ((case map_of (skipped_proj_granules st) layer_projection of
                              None \<Rightarrow> []
                            | Some us \<Rightarrow> us) @ [url])
                          (skipped_proj_granules st)\<rparr>)))"

text \<open>\<^verbatim>\<open>clear_vars\<close> (lines 167-179) and \<^verbatim>\<open>clear\<close> (lines 181-190).\<close>

definition clear_vars :: "cube \<Rightarrow> cube" where
  "clear_vars st = st\<lparr>ds := [], layers := LayersNone, dates := [], urls := []\<rparr>"

definition clear :: "cube \<Rightarrow> cube" where
  "clear st = (clear_vars st)\<lparr>num_urls_from_api := None,
                              skipped_proj_granules := [],
                              skipped_empty_granules := [],
                              skipped_double_granules := []\<rparr>"


section \<open>Cube assembler\<close>

subsection \<open>Names of \<^verbatim>\<open>itscube_types.py\<close>\<close>

abbreviation DataVars_URL :: string where "DataVars_URL \<equiv> ''original_url_path''"
abbreviation DataVars_V :: string where "DataVars_V \<equiv> ''v''"
abbreviation DataVars_VX :: string where "DataVars_VX \<equiv> ''vx''"
abbreviation DataVars_VY :: string where "DataVars_VY \<equiv> ''vy''"
abbreviation DataVars_VA :: string where "DataVars_VA \<equiv> ''va''"
abbreviation DataVars_VR :: string where "DataVars_VR \<equiv> ''vr''"
abbreviation DataVars_VP :: string where "DataVars_VP \<equiv> ''vp''"
abbreviation DataVars_VXP :: string where "DataVars_VXP \<equiv> ''vxp''"
abbreviation DataVars_VYP :: string where "DataVars_VYP \<equiv> ''vyp''"
abbreviation DataVars_V_ERROR :: string where "DataVars_V_ERROR \<equiv> ''v_error''"
abbreviation DataVars_VP_ERROR :: string where "DataVars_VP_ERROR \<equiv> ''vp_error''"
abbreviation DataVars_CHIP_SIZE_HEIGHT :: string where "DataVars_CHIP_SIZE_HEIGHT \<equiv> ''chip_size_height''"
abbreviation DataVars_CHIP_SIZE_WIDTH :: string where "DataVars_CHIP_SIZE_WIDTH \<equiv> ''chip_size_width''"
abbreviation DataVars_INTERP_MASK :: string where "DataVars_INTERP_MASK \<equiv> ''interp_mask''"
abbreviation DataVars_MAP_SCALE_CORRECTED :: string where
  "DataVars_MAP_SCALE_CORRECTED \<equiv> ''map_scale_corrected''"
abbreviation DataVars_GRID_MAPPING :: string where "DataVars_GRID_MAPPING \<equiv> ''grid_mapping''"
abbreviation DataVars_GRID_MAPPING_NAME :: string where
  "DataVars_GRID_MAPPING_NAME \<equiv> ''grid_mapping_name''"
abbreviation DataVars_STABLE_COUNT :: string where "DataVars_STABLE_COUNT \<equiv> ''stable_count''"
abbreviation DataVars_STABLE_COUNT_SLOW :: string where
  "DataVars_STABLE_COUNT_SLOW \<equiv> ''stable_count_slow''"
abbreviation DataVars_STABLE_COUNT_MASK :: string where
  "DataVars_STABLE_COUNT_MASK \<equiv> ''stable_count_mask''"
abbreviation DataVars_FLAG_STABLE_SHIFT :: string where
  "DataVars_FLAG_STABLE_SHIFT \<equiv> ''flag_stable_shift''"
abbreviation DataVars_STABLE_SHIFT :: string where "DataVars_STABLE_SHIFT \<equiv> ''stable_shift''"
abbreviation DataVars_STABLE_SHIFT_SLOW :: string where
  "DataVars_STABLE_SHIFT_SLOW \<equiv> ''stable_shift_slow''"
abbreviation DataVars_STABLE_SHIFT_MASK :: string where
  "DataVars_STABLE_SHIFT_MASK \<equiv> ''stable_shift_mask''"
abbreviation DataVars_STABLE_RMSE :: string where "DataVars_STABLE_RMSE \<equiv> ''stable_rmse''"
abbreviation DataVars_ERROR_DESCRIPTION :: string where "DataVars_ERROR_DESCRIPTION \<equiv> ''description''"
abbreviation ImgPairInfo_NAME :: string where "ImgPairInfo_NAME \<equiv> ''img_pair_info''"

abbreviation DataVars_MISSING_BYTE :: aval where "DataVars_MISSING_BYTE \<equiv> ANum 0"
abbreviation DataVars_MISSING_VALUE :: aval where "DataVars_MISSING_VALUE \<equiv> ANum (- 32767)"
abbreviation CHIP_SIZE_HEIGHT_NO_VALUE :: int where "CHIP_SIZE_HEIGHT_NO_VALUE \<equiv> 65535"

text \<open>\<^verbatim>\<open>DataVars.ImgPairInfo.ALL\<close>, each name with its entry of \<^verbatim>\<open>CONVERT_TO_DATE\<close>.\<close>

definition ImgPairInfo_ALL :: "(string \<times> bool) list" where
  "ImgPairInfo_ALL =
     [(''mission_img1'', False), (''sensor_img1'', False), (''satellite_img1'', False),
      (''mission_img2'', False), (''sensor_img2'', False), (''satellite_img2'', False),
      (''date_dt'', False), (''date_center'', True), (''roi_valid_percentage'', False),
      (''autoRIFT_software_version'', False)]"

subsection \<open>Sequencing of fallible steps\<close>

definition bind_err :: "error + 'a \<Rightarrow> ('a \<Rightarrow> error + 'b) \<Rightarrow> error + 'b" where
  "bind_err m f = (case m of Inl e \<Rightarrow> Inl e | Inr x \<Rightarrow> f x)"

text \<open>A list comprehension whose element expression may raise: the first error wins.\<close>

fun mapM :: "('a \<Rightarrow> error + 'b) \<Rightarrow> 'a list \<Rightarrow> error + 'b list" where
  "mapM f [] = Inr []"
| "mapM f (x # xs) =
     (case f x of
        Inl e \<Rightarrow> Inl e
      | Inr y \<Rightarrow> (case mapM f xs of Inl e \<Rightarrow> Inl e | Inr ys \<Rightarrow> Inr (y # ys)))"

text \<open>A \<^verbatim>\<open>for\<close> loop over a list whose body transforms the working state and may raise.\<close>

fun foldM :: "('a \<Rightarrow> 's \<Rightarrow> error + 's) \<Rightarrow> 'a list \<Rightarrow> 's \<Rightarrow> error + 's" where
  "foldM f [] s = Inr s"
| "foldM f (x # xs) s = (case f x s of Inl e \<Rightarrow> Inl e | Inr s' \<Rightarrow> foldM f xs s')"

subsection \<open>Access to a granule\<close>

text \<open>
  \<^verbatim>\<open>ds.name\<close> raises \<^verbatim>\<open>AttributeError\<close> and \<^verbatim>\<open>ds[name]\<close> raises \<^verbatim>\<open>KeyError\<close> when the
  granule has no such variable; \<^verbatim>\<open>attrs[key]\<close> raises \<^verbatim>\<open>KeyError\<close>.
\<close>

definition ds_var :: "granule \<Rightarrow> string \<Rightarrow> error + data_array" where
  "ds_var g name = (case map_of (g_vars g) name of None \<Rightarrow> Inl AttributeError | Some a \<Rightarrow> Inr a)"

definition ds_item :: "granule \<Rightarrow> string \<Rightarrow> error + data_array" where
  "ds_item g name = (case map_of (g_vars g) name of None \<Rightarrow> Inl KeyError | Some a \<Rightarrow> Inr a)"

definition attr_item :: "attrs \<Rightarrow> string \<Rightarrow> error + aval" where
  "attr_item a key = (case map_of a key of None \<Rightarrow> Inl KeyError | Some v \<Rightarrow> Inr v)"

definition var_attr :: "granule \<Rightarrow> string \<Rightarrow> string \<Rightarrow> error + aval" where
  "var_attr g name key = bind_err (ds_var g name) (\<lambda>a. attr_item (da_attrs a) key)"

definition has_var :: "string \<Rightarrow> granule \<Rightarrow> bool" where
  "has_var name g = (map_of (g_vars g) name \<noteq> None)"

definition has_var_attr :: "string \<Rightarrow> string \<Rightarrow> granule \<Rightarrow> bool" where
  "has_var_attr name key g =
     (case map_of (g_vars g) name of None \<Rightarrow> False | Some a \<Rightarrow> map_of (da_attrs a) key \<noteq> None)"

text \<open>\<^verbatim>\<open>ds.drop_vars(name)\<close> raises \<^verbatim>\<open>ValueError\<close> when the variable is absent.\<close>

definition drop_vars :: "string \<Rightarrow> granule \<Rightarrow> error + granule" where
  "drop_vars name g =
     (if has_var name g
      then Inr (g\<lparr>g_vars := filter (\<lambda>p. fst p \<noteq> name) (g_vars g)\<rparr>)
      else Inl ValueError)"

definition drop_if_present :: "string \<Rightarrow> granule \<Rightarrow> error + granule" where
  "drop_if_present name g = (if has_var name g then drop_vars name g else Inr g)"

text \<open>
  \<^verbatim>\<open>get_data_var\<close> (lines 657-678): the variable of the granule or, when the granule
  lacks it, an array of \<^verbatim>\<open>len(self.grid_y)\<close> rows and \<^verbatim>\<open>len(self.grid_x)\<close> columns
  filled with NaN.
\<close>

definition get_data_var :: "config \<Rightarrow> granule \<Rightarrow> string \<Rightarrow> data_array" where
  "get_data_var cfg g var_name =
     (case map_of (g_vars g) var_name of
        Some a \<Rightarrow> a
      | None \<Rightarrow> \<lparr>da_values = replicate (grid_y_len cfg) (replicate (grid_x_len cfg) None),
                 da_attrs = []\<rparr>)"

text \<open>\<^verbatim>\<open>get_data_var_attr\<close> (lines 680-730).\<close>

definition unwrap_single :: "aval \<Rightarrow> aval" where
  "unwrap_single v = (case v of AArr [x] \<Rightarrow> x | _ \<Rightarrow> v)"

definition to_date_value :: "pylib \<Rightarrow> aval \<Rightarrow> error + aval" where
  "to_date_value L v =
     (case v of
        AStr s \<Rightarrow>
          (let tokens = str_split CHR ''T'' s in
           if length tokens = 3
           then (case strptime L
                        (tokens ! 0 @ ''T'' @ take 2 (tokens ! 1) @ '':'' @
                         take 2 (drop 2 (tokens ! 1)) @ '':'' @ take 2 (drop 4 (tokens ! 1)))
                        ''%Y%m%dT%H:%M:%S'' of
                   None \<Rightarrow> Inl DateConversionError
                 | Some d \<Rightarrow> Inr (ADate d))
           else if length s = 8
           then (case strptime L (take 8 s) ''%Y%m%d'' of
                   None \<Rightarrow> Inl DateConversionError
                 | Some d \<Rightarrow> Inr (ADate d))
           else if length s > 8
           then (case strptime L s ''%Y%m%dT%H:%M:%S'' of
                   None \<Rightarrow> Inl DateConversionError
                 | Some d \<Rightarrow> Inr (ADate d))
           else Inr (AStr s))
      | _ \<Rightarrow> Inl AttributeError)"

definition get_data_var_attr ::
  "pylib \<Rightarrow> granule \<Rightarrow> url \<Rightarrow> string \<Rightarrow> string \<Rightarrow> aval option \<Rightarrow> bool \<Rightarrow> error + aval" where
  "get_data_var_attr L g ds_url var_name attr_name missing_value to_date =
     (if has_var_attr var_name attr_name g
      then bind_err (var_attr g var_name attr_name)
             (\<lambda>v. if to_date then to_date_value L (unwrap_single v) else Inr (unwrap_single v))
      else (case missing_value of
              None \<Rightarrow> Inl AttributeExpected
            | Some m \<Rightarrow> Inr m))"

subsection \<open>Building variables of the cube\<close>

text \<open>
  \<^verbatim>\<open>xr.concat(arrays, mid_date_coord)\<close> stacks the arrays along the new record axis and
  \<^verbatim>\<open>xr.DataArray(data, coords=[mid_date_coord], dims=[mid_date])\<close> takes one value per
  record; xarray raises \<^verbatim>\<open>ValueError\<close> when their number is not the length of the
  coordinate. The alignment of the spatial coordinates by xarray is not modelled.
\<close>

definition xr_concat :: "data_array list \<Rightarrow> datetime option list \<Rightarrow> error + cube_var" where
  "xr_concat arrays mid_date_coord =
     (if length arrays = length mid_date_coord
      then Inr (Spatial (map da_values arrays))
      else Inl ValueError)"

definition record_array :: "aval list \<Rightarrow> datetime option list \<Rightarrow> error + cube_var" where
  "record_array data mid_date_coord =
     (if length data = length mid_date_coord then Inr (PerRecord data) else Inl ValueError)"

text \<open>
  The working state of \<^verbatim>\<open>combine_layers\<close>: \<^verbatim>\<open>self.ds\<close> (variables are dropped from it
  as they are consumed), \<^verbatim>\<open>self.layers\<close> and the local list \<^verbatim>\<open>new_v_vars\<close>.
\<close>

record work =
  w_ds :: "granule list"
  w_layers :: dataset
  w_new_v_vars :: "string list"

definition set_layer :: "string \<Rightarrow> cube_var \<Rightarrow> work \<Rightarrow> work" where
  "set_layer name var w =
     w\<lparr>w_layers := (w_layers w)\<lparr>d_vars := AList.update name var (d_vars (w_layers w))\<rparr>\<rparr>"

definition in_layers :: "string \<Rightarrow> work \<Rightarrow> bool" where
  "in_layers name w = (map_of (d_vars (w_layers w)) name \<noteq> None)"

definition first_ds :: "work \<Rightarrow> error + granule" where
  "first_ds w = (case w_ds w of [] \<Rightarrow> Inl IndexError | g # rest \<Rightarrow> Inr g)"

definition append_new_v_vars :: "string list \<Rightarrow> work \<Rightarrow> work" where
  "append_new_v_vars names w = w\<lparr>w_new_v_vars := w_new_v_vars w @ names\<rparr>"

text \<open>One-dimensional variable from an attribute of \<open>var_name\<close>, one value per record.\<close>

definition attr_records ::
  "pylib \<Rightarrow> cube \<Rightarrow> work \<Rightarrow> string \<Rightarrow> string \<Rightarrow> aval option \<Rightarrow> bool \<Rightarrow> error + cube_var" where
  "attr_records L st w var_name attr_name missing_value to_date =
     bind_err
       (mapM (\<lambda>p. get_data_var_attr L (fst p) (snd p) var_name attr_name missing_value to_date)
          (zip (w_ds w) (urls st)))
       (\<lambda>data. record_array data (dates st))"


definition run_stages :: "(work \<Rightarrow> error + work) list \<Rightarrow> work \<Rightarrow> error + work" where
  "run_stages stages w = foldM (\<lambda>stage. stage) stages w"

definition pure_stage :: "(work \<Rightarrow> work) \<Rightarrow> work \<Rightarrow> error + work" where
  "pure_stage f w = Inr (f w)"

definition concat_stage ::
  "cube \<Rightarrow> string \<Rightarrow> (granule \<Rightarrow> error + data_array) \<Rightarrow> work \<Rightarrow> error + work" where
  "concat_stage st name pick w =
     bind_err (mapM pick (w_ds w))
       (\<lambda>arrays. bind_err (xr_concat arrays (dates st))
          (\<lambda>var. Inr (set_layer name var w)))"

definition drop_stage :: "(granule \<Rightarrow> error + granule) \<Rightarrow> work \<Rightarrow> error + work" where
  "drop_stage d w = bind_err (mapM d (w_ds w)) (\<lambda>gs. Inr (w\<lparr>w_ds := gs\<rparr>))"

subsection \<open>\<^verbatim>\<open>process_v_attributes\<close> (lines 825-1080)\<close>

definition v_comp_attrs :: "string list" where
  "v_comp_attrs = [''error'', ''error_mask'', ''error_modeled'', ''error_slow'']"

text \<open>The keys of the local dictionary \<^verbatim>\<open>_attrs\<close>.\<close>

definition description_keys :: "string list" where
  "description_keys =
     [''vx_error'', ''vy_error'', ''va_error'', ''vr_error'', ''vxp_error'', ''vyp_error'',
      ''error_mask'', ''error_slow'', ''error_modeled'']"

text \<open>One iteration of the loop over \<^verbatim>\<open>_v_comp_attrs\<close> (lines 873-929).\<close>

definition error_variable :: "pylib \<Rightarrow> cube \<Rightarrow> string \<Rightarrow> string \<Rightarrow> work \<Rightarrow> error + work" where
  "error_variable L st var_name each_prefix w =
     (let error_name = var_name @ ''_'' @ each_prefix;
          error_name_desc = error_name @ ''_'' @ DataVars_ERROR_DESCRIPTION
      in bind_err
           (if var_name \<in> set [DataVars_VX, DataVars_VY]
            then mapM (\<lambda>p. bind_err (ds_item (fst p) var_name)
                         (\<lambda>a. if map_of (da_attrs a) error_name \<noteq> None
                               then get_data_var_attr L (fst p) (snd p) var_name error_name
                                      (Some DataVars_MISSING_VALUE) False
                               else get_data_var_attr L (fst p) (snd p) var_name DataVars_STABLE_RMSE
                                      (Some DataVars_MISSING_VALUE) False))
                   (zip (w_ds w) (urls st))
            else mapM (\<lambda>p. get_data_var_attr L (fst p) (snd p) var_name error_name
                              (Some DataVars_MISSING_VALUE) False)
                   (zip (w_ds w) (urls st)))
           (\<lambda>error_data.
              bind_err (first_ds w)
                (\<lambda>g0. if \<not> has_var_attr var_name error_name_desc g0 \<and>
                          each_prefix \<notin> set description_keys \<and>
                          error_name \<notin> set description_keys
                       then Inl UnknownDescription
                       else bind_err (record_array error_data (dates st))
                              (\<lambda>var. Inr (set_layer error_name var w)))))"

text \<open>
  \<^verbatim>\<open>stable_count\<close>, \<^verbatim>\<open>stable_count_slow\<close> and \<^verbatim>\<open>stable_count_mask\<close> (lines 933-991):
  captured once, and only when the first record of the batch carries the attribute; the
  attribute is then expected in every record.
\<close>

definition promote_count :: "pylib \<Rightarrow> cube \<Rightarrow> string \<Rightarrow> string \<Rightarrow> work \<Rightarrow> error + work" where
  "promote_count L st var_name attr_name w =
     (if \<not> in_layers attr_name w
      then bind_err (first_ds w)
             (\<lambda>g0. if has_var_attr var_name attr_name g0
                    then bind_err (attr_records L st w var_name attr_name None False)
                           (\<lambda>var. Inr (set_layer attr_name var w))
                    else Inr w)
      else Inr w)"

text \<open>\<^verbatim>\<open>flag_stable_shift\<close> (lines 997-1009), with the default \<^verbatim>\<open>0.0\<close>.\<close>

definition promote_flag :: "pylib \<Rightarrow> cube \<Rightarrow> string \<Rightarrow> work \<Rightarrow> error + work" where
  "promote_flag L st var_name w =
     (if \<not> in_layers DataVars_FLAG_STABLE_SHIFT w
      then bind_err (first_ds w)
             (\<lambda>g0. if has_var var_name g0
                    then bind_err (attr_records L st w var_name DataVars_FLAG_STABLE_SHIFT
                                     (Some (ANum 0)) False)
                           (\<lambda>var. Inr (set_layer DataVars_FLAG_STABLE_SHIFT var w))
                    else Inr w)
      else Inr w)"

text \<open>The three shift variables of \<open>var_name\<close> (lines 1019-1076).\<close>

definition shift_variable :: "pylib \<Rightarrow> cube \<Rightarrow> string \<Rightarrow> string \<Rightarrow> work \<Rightarrow> error + work" where
  "shift_variable L st var_name shift w =
     bind_err (attr_records L st w var_name shift (Some DataVars_MISSING_VALUE) False)
       (\<lambda>var. Inr (set_layer (var_name @ ''_'' @ shift) var w))"

definition return_vars :: "string \<Rightarrow> string list" where
  "return_vars var_name =
     map (\<lambda>each_prefix. var_name @ ''_'' @ each_prefix) v_comp_attrs @
     map (\<lambda>shift. var_name @ ''_'' @ shift)
       [DataVars_STABLE_SHIFT, DataVars_STABLE_SHIFT_SLOW, DataVars_STABLE_SHIFT_MASK]"

definition process_v_attributes :: "pylib \<Rightarrow> cube \<Rightarrow> string \<Rightarrow> work \<Rightarrow> error + work \<times> string list" where
  "process_v_attributes L st var_name w =
     bind_err
       (run_stages
          [foldM (error_variable L st var_name) v_comp_attrs,
           promote_count L st var_name DataVars_STABLE_COUNT,
           promote_count L st var_name DataVars_STABLE_COUNT_SLOW,
           promote_count L st var_name DataVars_STABLE_COUNT_MASK,
           promote_flag L st var_name,
           shift_variable L st var_name DataVars_STABLE_SHIFT,
           shift_variable L st var_name DataVars_STABLE_SHIFT_SLOW,
           shift_variable L st var_name DataVars_STABLE_SHIFT_MASK]
          w)
       (\<lambda>w'. Inr (w', return_vars var_name))"

text \<open>\<^verbatim>\<open>new_v_vars.extend(self.process_v_attributes(var_name, mid_date_coord))\<close>.\<close>

definition v_attributes_stage :: "pylib \<Rightarrow> cube \<Rightarrow> string \<Rightarrow> work \<Rightarrow> error + work" where
  "v_attributes_stage L st var_name w =
     bind_err (process_v_attributes L st var_name w)
       (\<lambda>r. Inr (append_new_v_vars (snd r) (fst r)))"

subsection \<open>The stages of \<^verbatim>\<open>combine_layers\<close> (lines 1157-1488)\<close>

text \<open>
  The \<^verbatim>\<open>xr.Dataset\<close> constructor of lines 1157-1200. Of the dataset attributes, the
  target projection and the three rejection logs are kept (as values, before
  \<^verbatim>\<open>json.dumps\<close>); the constant titles and the creation time are left out.
\<close>

definition init_layers :: "config \<Rightarrow> cube \<Rightarrow> error + dataset" where
  "init_layers cfg st =
     (if length (urls st) = length (dates st)
      then Inr \<lparr>d_vars = [(DataVars_URL, PerRecord (map AStr (urls st)))],
                d_mid_date = dates st,
                d_attrs =
                  [(''projection'', AStr (projection cfg)),
                   (''skipped_empty_data'', AArr (map AStr (skipped_empty_granules st))),
                   (''skipped_duplicate_middle_date'', AArr (map AStr (skipped_double_granules st))),
                   (''skipped_wrong_projection'',
                      AArr (map (\<lambda>p. AArr [ANum (fst p), AArr (map AStr (snd p))])
                              (skipped_proj_granules st)))]\<rparr>
      else Inl ValueError)"

text \<open>The projection descriptor, written on the first write only (lines 1207-1230).\<close>

definition projection_stage :: "bool \<Rightarrow> work \<Rightarrow> error + work" where
  "projection_stage is_first_write w =
     (if is_first_write
      then bind_err (first_ds w)
             (\<lambda>g0. if has_var DataVars_POLAR_STEREOGRAPHIC g0
                    then bind_err (ds_item g0 DataVars_POLAR_STEREOGRAPHIC)
                           (\<lambda>a. Inr (set_layer DataVars_MAPPING (Scalar (da_attrs a)) w))
                    else if has_var DataVars_UTM_PROJECTION g0
                    then bind_err (ds_item g0 DataVars_UTM_PROJECTION)
                           (\<lambda>a. Inr (set_layer DataVars_MAPPING (Scalar (da_attrs a)) w))
                    else if has_var DataVars_MAPPING g0
                    then bind_err (ds_item g0 DataVars_MAPPING)
                           (\<lambda>a. Inr (set_layer DataVars_MAPPING (Scalar (da_attrs a)) w))
                    else Inl MissingProjectionVariable)
      else Inr w)"

text \<open>The consistency check of \<^verbatim>\<open>grid_mapping\<close> across the batch (lines 1249-1263).\<close>

definition grid_mapping_stage :: "work \<Rightarrow> error + work" where
  "grid_mapping_stage w =
     bind_err (first_ds w)
       (\<lambda>g0. bind_err (var_attr g0 DataVars_V DataVars_GRID_MAPPING)
          (\<lambda>gm0. if gm0 = AStr DataVars_MAPPING
                  then bind_err
                         (mapM (\<lambda>g. var_attr g DataVars_MAPPING DataVars_GRID_MAPPING_NAME) (w_ds w))
                         (\<lambda>grid_mapping_values.
                            if length (remdups grid_mapping_values) > 1
                            then Inl MultipleValues else Inr w)
                  else bind_err
                         (mapM (\<lambda>g. var_attr g DataVars_V DataVars_GRID_MAPPING) (w_ds w))
                         (\<lambda>grid_mapping_values.
                            if length (remdups grid_mapping_values) > 1
                            then Inl MultipleValues else Inr w)))"

text \<open>\<^verbatim>\<open>map_scale_corrected\<close>, present when the first record carries it (lines 1268-1283).\<close>

definition map_scale_corrected_stage :: "pylib \<Rightarrow> cube \<Rightarrow> work \<Rightarrow> error + work" where
  "map_scale_corrected_stage L st w =
     bind_err (first_ds w)
       (\<lambda>g0. bind_err (ds_var g0 DataVars_V)
          (\<lambda>v0. if map_of (da_attrs v0) DataVars_MAP_SCALE_CORRECTED \<noteq> None
                 then bind_err (attr_records L st w DataVars_V DataVars_MAP_SCALE_CORRECTED
                                  (Some DataVars_MISSING_BYTE) False)
                        (\<lambda>var. Inr (set_layer DataVars_MAP_SCALE_CORRECTED var w))
                 else Inr w))"

text \<open>
  \<^verbatim>\<open>chip_size_height\<close> (lines 1399-1404): the granule's own array unless every cell of
  it equals \<^verbatim>\<open>CHIP_SIZE_HEIGHT_NO_VALUE\<close>, in which case \<^verbatim>\<open>chip_size_width\<close> stands in.
\<close>

definition count_unmasked :: "data_array \<Rightarrow> nat" where
  "count_unmasked a =
     length (filter (\<lambda>c. c \<noteq> Some CHIP_SIZE_HEIGHT_NO_VALUE) (concat (da_values a)))"

definition pick_chip_size_height :: "granule \<Rightarrow> error + data_array" where
  "pick_chip_size_height g =
     bind_err (ds_var g DataVars_CHIP_SIZE_HEIGHT)
       (\<lambda>h. if count_unmasked h \<noteq> 0 then Inr h else ds_var g DataVars_CHIP_SIZE_WIDTH)"

text \<open>The variables made of the attributes of \<^verbatim>\<open>img_pair_info\<close> (lines 1472-1488).\<close>

definition img_pair_info_variable :: "pylib \<Rightarrow> cube \<Rightarrow> string \<times> bool \<Rightarrow> work \<Rightarrow> error + work" where
  "img_pair_info_variable L st each w =
     bind_err (attr_records L st w ImgPairInfo_NAME (fst each) None (snd each))
       (\<lambda>var. Inr (set_layer (fst each) var w))"

text \<open>
  The assembly of lines 1207-1488, stage by stage in the order of the source.
\<close>

definition stages :: "pylib \<Rightarrow> config \<Rightarrow> cube \<Rightarrow> bool \<Rightarrow> (work \<Rightarrow> error + work) list" where
  "stages L cfg st is_first_write =
     [projection_stage is_first_write,
      concat_stage st DataVars_V (\<lambda>g. ds_var g DataVars_V),
      pure_stage (append_new_v_vars [DataVars_V]),
      grid_mapping_stage,
      map_scale_corrected_stage L st,
      drop_stage (drop_vars DataVars_V),
      concat_stage st DataVars_V_ERROR (\<lambda>g. Inr (get_data_var cfg g DataVars_V_ERROR)),
      pure_stage (append_new_v_vars [DataVars_V_ERROR]),
      drop_stage (drop_if_present DataVars_V_ERROR),
      concat_stage st DataVars_VX (\<lambda>g. ds_var g DataVars_VX),
      pure_stage (append_new_v_vars [DataVars_VX]),
      v_attributes_stage L st DataVars_VX,
      drop_stage (drop_vars DataVars_VX),
      concat_stage st DataVars_VY (\<lambda>g. ds_var g DataVars_VY),
      pure_stage (append_new_v_vars [DataVars_VY]),
      v_attributes_stage L st DataVars_VY,
      drop_stage (drop_vars DataVars_VY),
      concat_stage st DataVars_VA (\<lambda>g. Inr (get_data_var cfg g DataVars_VA)),
      pure_stage (append_new_v_vars [DataVars_VA]),
      v_attributes_stage L st DataVars_VA,
      drop_stage (drop_if_present DataVars_VA),
      concat_stage st DataVars_VR (\<lambda>g. Inr (get_data_var cfg g DataVars_VR)),
      pure_stage (append_new_v_vars [DataVars_VR]),
      v_attributes_stage L st DataVars_VR,
      drop_stage (drop_if_present DataVars_VR),
      concat_stage st DataVars_VXP (\<lambda>g. Inr (get_data_var cfg g DataVars_VXP)),
      pure_stage (append_new_v_vars [DataVars_VXP]),
      v_attributes_stage L st DataVars_VXP,
      drop_stage (drop_if_present DataVars_VXP),
      concat_stage st DataVars_VYP (\<lambda>g. Inr (get_data_var cfg g DataVars_VYP)),
      pure_stage (append_new_v_vars [DataVars_VYP]),
      v_attributes_stage L st DataVars_VYP,
      drop_stage (drop_if_present DataVars_VYP),
      concat_stage st DataVars_CHIP_SIZE_HEIGHT pick_chip_size_height,
      drop_stage (drop_vars DataVars_CHIP_SIZE_HEIGHT),
      concat_stage st DataVars_CHIP_SIZE_WIDTH (\<lambda>g. ds_var g DataVars_CHIP_SIZE_WIDTH),
      drop_stage (drop_vars DataVars_CHIP_SIZE_WIDTH),
      concat_stage st DataVars_INTERP_MASK (\<lambda>g. ds_var g DataVars_INTERP_MASK),
      drop_stage (drop_vars DataVars_INTERP_MASK),
      concat_stage st DataVars_VP (\<lambda>g. Inr (get_data_var cfg g DataVars_VP)),
      pure_stage (append_new_v_vars [DataVars_VP]),
      drop_stage (drop_if_present DataVars_VP),
      concat_stage st DataVars_VP_ERROR (\<lambda>g. Inr (get_data_var cfg g DataVars_VP_ERROR)),
      pure_stage (append_new_v_vars [DataVars_VP_ERROR]),
      drop_stage (drop_if_present DataVars_VP_ERROR),
      foldM (img_pair_info_variable L st) ImgPairInfo_ALL]"


subsection \<open>\<^verbatim>\<open>combine_layers\<close> (lines 1138-1690)\<close>

text \<open>
  \<open>assemble\<close> is lines 1157-1488: the dataset \<^verbatim>\<open>self.layers\<close> of the batch, together with
  what is left of \<^verbatim>\<open>self.ds\<close> and the local list \<^verbatim>\<open>new_v_vars\<close>.
\<close>

definition assemble :: "pylib \<Rightarrow> config \<Rightarrow> cube \<Rightarrow> bool \<Rightarrow> error + work" where
  "assemble L cfg st is_first_write =
     bind_err (init_layers cfg st)
       (\<lambda>lay0. run_stages (stages L cfg st is_first_write)
                 \<lparr>w_ds = ds st, w_layers = lay0, w_new_v_vars = []\<rparr>)"

text \<open>
  With an empty \<^verbatim>\<open>self.ds\<close> the method returns after \<^verbatim>\<open>self.layers = {}\<close> (lines
  1143-1149). Otherwise it assembles the dataset and comes to the statement of lines
  1491-1499, whose list comprehension over the non-empty \<^verbatim>\<open>self.ds\<close> reads
  \<^verbatim>\<open>DataVars.AUTORIFT_SOFTWARE_VERSION\<close> (line 1492). The class \<^verbatim>\<open>DataVars\<close> of
  \<^verbatim>\<open>itscube_types.py\<close> has no attribute of that name (it is declared in
  \<^verbatim>\<open>DataVars.ImgPairInfo\<close> only), so the expression raises \<^verbatim>\<open>AttributeError\<close>. The rest
  of the method is reached by no call and is not modelled: the parameter file, the
  acquisition dates and the time standards (lines 1501-1561, which read
  \<^verbatim>\<open>DataVars.AUTORIFT_PARAMETER_FILE\<close>, \<^verbatim>\<open>ImgPairInfo.ACQUISITION_DATE_IMG1\<close>,
  \<^verbatim>\<open>ACQUISITION_DATE_IMG2\<close>, \<^verbatim>\<open>TIME_STANDARD_IMG1\<close> and \<^verbatim>\<open>TIME_STANDARD_IMG2\<close>, none of
  them declared either), the encoding, the two calls of \<^verbatim>\<open>to_zarr\<close> (lines 1679 and
  1684) and the final \<^verbatim>\<open>self.clear_vars()\<close> (line 1690). An exception ends the run; the
  state of the object that it leaves behind is not modelled.
\<close>

definition combine_layers :: "pylib \<Rightarrow> config \<Rightarrow> cube \<Rightarrow> store \<Rightarrow> bool \<Rightarrow> error + cube \<times> store" where
  "combine_layers L cfg st output_dir is_first_write =
     (if length (ds st) = 0
      then Inr (st\<lparr>layers := LayersEmptyDict\<rparr>, output_dir)
      else bind_err (assemble L cfg st is_first_write) (\<lambda>w. Inl AttributeError))"

section \<open>Orchestrators\<close>

text \<open>
  \<^verbatim>\<open>request_granules\<close> (lines 192-226); \<open>api_urls\<close> is the answer of the search service.
  \<^verbatim>\<open>found_urls[:num_granules]\<close> is Python slicing, also for a negative bound.
\<close>

definition request_granules :: "pylib \<Rightarrow> cube \<Rightarrow> url list \<Rightarrow> int option \<Rightarrow> error + url list \<times> cube" where
  "request_granules L st api_urls num_granules =
     (if length api_urls = 0
      then Inr (api_urls, st)
      else skip_duplicate_granules L st
             (case num_granules of
                None \<Rightarrow> api_urls
              | Some n \<Rightarrow>
                  (if n = 0 then api_urls
                   else if n > 0 then take (nat n) api_urls
                   else take (length api_urls - nat (- n)) api_urls)))"

text \<open>\<^verbatim>\<open>read_s3_dataset\<close> and \<^verbatim>\<open>read_dataset\<close>: open the granule, then preprocess it.\<close>

definition read_dataset :: "pylib \<Rightarrow> env \<Rightarrow> config \<Rightarrow> url \<Rightarrow> error + layer_result" where
  "read_dataset L E cfg each_url =
     bind_err (open_dataset E each_url) (\<lambda>g. preprocess_dataset L E cfg g each_url)"

text \<open>
  For the statements on \<^verbatim>\<open>is_first_write\<close> both loops record every call of
  \<^verbatim>\<open>combine_layers\<close> they make: the number of records in the accumulator
  (\<^verbatim>\<open>len(self.ds)\<close>), the number of datasets written to the store so far, and the flag
  that is passed. The record is kept when the call raises.
\<close>

type_synonym call = "nat \<times> nat \<times> bool"

definition call_of :: "cube \<Rightarrow> store \<Rightarrow> bool \<Rightarrow> call" where
  "call_of st cube_store is_first_write = (length (ds st), length cube_store, is_first_write)"

text \<open>
  The loop of the sequential \<^verbatim>\<open>create\<close> (lines 443-468) on
  \<open>(self, cube_store, is_first_write)\<close>.
\<close>

fun create_loop ::
  "pylib \<Rightarrow> env \<Rightarrow> config \<Rightarrow> cube \<times> store \<times> bool \<Rightarrow> call list \<Rightarrow> url list \<Rightarrow>
   call list \<times> (error + cube \<times> store \<times> bool)" where
  "create_loop L E cfg s calls [] = (calls, Inr s)"
| "create_loop L E cfg s calls (each_url # rest) =
     (case s of (st, cube_store, is_first_write) \<Rightarrow>
      case read_dataset L E cfg each_url of
        Inl e \<Rightarrow> (calls, Inl e)
      | Inr results \<Rightarrow>
          (if length (urls (add_layer st results)) = NUM_GRANULES_TO_WRITE cfg
           then (case combine_layers L cfg (add_layer st results) cube_store is_first_write of
                   Inl e \<Rightarrow>
                     (calls @ [call_of (add_layer st results) cube_store is_first_write], Inl e)
                 | Inr (st', cube_store') \<Rightarrow>
                     create_loop L E cfg (st', cube_store', False)
                       (calls @ [call_of (add_layer st results) cube_store is_first_write]) rest)
           else create_loop L E cfg (add_layer st results, cube_store, is_first_write) calls rest))"

text \<open>
  \<^verbatim>\<open>create\<close> (lines 420-477). \<^verbatim>\<open>format_stats\<close> only logs. The result is the calls of
  \<^verbatim>\<open>combine_layers\<close> and either the exception or \<open>(found_urls, self, cube_store)\<close>.
\<close>

definition create ::
  "pylib \<Rightarrow> env \<Rightarrow> config \<Rightarrow> cube \<Rightarrow> url list \<Rightarrow> int option \<Rightarrow>
   call list \<times> (error + url list \<times> cube \<times> store)" where
  "create L E cfg st api_urls num_granules =
     (case request_granules L (clear st) api_urls num_granules of
        Inl e \<Rightarrow> ([], Inl e)
      | Inr r \<Rightarrow>
          (if length (fst r) = 0
           then ([], Inr (fst r, snd r, []))
           else (case create_loop L E cfg (snd r, [], True) [] (fst r) of
                   (calls, Inl e) \<Rightarrow> (calls, Inl e)
                 | (calls, Inr (st', cube_store, is_first_write)) \<Rightarrow>
                     (if length (urls st') \<noteq> 0
                      then (case combine_layers L cfg st' cube_store is_first_write of
                              Inl e \<Rightarrow>
                                (calls @ [call_of st' cube_store is_first_write], Inl e)
                            | Inr c \<Rightarrow>
                                (calls @ [call_of st' cube_store is_first_write],
                                 Inr (fst r, fst c, snd c)))
                      else (calls, Inr (fst r, st', cube_store))))))"

text \<open>
  The loop of \<^verbatim>\<open>create_parallel\<close> (lines 506-543). The tasks of one batch are independent;
  when several of them fail the model reports the first in submission order. With
  \<^verbatim>\<open>NUM_GRANULES_TO_WRITE = 0\<close> the source's \<^verbatim>\<open>while\<close> loop never ends, so the loop is a
  partial function and \<open>None\<close> stands for a run that does not return.
\<close>

partial_function (option) parallel_loop ::
  "pylib \<Rightarrow> env \<Rightarrow> config \<Rightarrow> url list \<Rightarrow> cube \<Rightarrow> store \<Rightarrow> bool \<Rightarrow> call list \<Rightarrow> nat \<Rightarrow> nat \<Rightarrow>
   (call list \<times> (error + cube \<times> store)) option" where
  "parallel_loop L E cfg found_urls st cube_store is_first_write calls start num_to_process =
     (if num_to_process > 0
      then (case mapM (read_dataset L E cfg)
                   (take (if num_to_process > NUM_GRANULES_TO_WRITE cfg
                          then NUM_GRANULES_TO_WRITE cfg else num_to_process)
                      (drop start found_urls)) of
              Inl e \<Rightarrow> Some (calls, Inl e)
            | Inr results \<Rightarrow>
                (case combine_layers L cfg (fold (\<lambda>each_ds s. add_layer s each_ds) results st)
                        cube_store is_first_write of
                   Inl e \<Rightarrow>
                     Some (calls @ [call_of (fold (\<lambda>each_ds s. add_layer s each_ds) results st)
                                      cube_store is_first_write],
                           Inl e)
                 | Inr c \<Rightarrow>
                     parallel_loop L E cfg found_urls (fst c) (snd c)
                       (if start = 0 then False else is_first_write)
                       (calls @ [call_of (fold (\<lambda>each_ds s. add_layer s each_ds) results st)
                                   cube_store is_first_write])
                       (start + (if num_to_process > NUM_GRANULES_TO_WRITE cfg
                                 then NUM_GRANULES_TO_WRITE cfg else num_to_process))
                       (num_to_process - (if num_to_process > NUM_GRANULES_TO_WRITE cfg
                                          then NUM_GRANULES_TO_WRITE cfg else num_to_process))))
      else Some (calls, Inr (st, cube_store)))"

definition create_parallel ::
  "pylib \<Rightarrow> env \<Rightarrow> config \<Rightarrow> cube \<Rightarrow> url list \<Rightarrow> int option \<Rightarrow>
   (call list \<times> (error + url list \<times> cube \<times> store)) option" where
  "create_parallel L E cfg st api_urls num_granules =
     (case request_granules L (clear st) api_urls num_granules of
        Inl e \<Rightarrow> Some ([], Inl e)
      | Inr r \<Rightarrow>
          (if length (fst r) = 0
           then Some ([], Inr (fst r, snd r, []))
           else (case parallel_loop L E cfg (fst r) (snd r) [] True [] 0 (length (fst r)) of
                   None \<Rightarrow> None
                 | Some (calls, Inl e) \<Rightarrow> Some (calls, Inl e)
                 | Some (calls, Inr c) \<Rightarrow> Some (calls, Inr (fst r, fst c, snd c)))))"


section \<open>Predicates used in the statements\<close>

text \<open>An identifier whose file name parses, its physical-pair key and its two processing dates.\<close>

definition parsed :: "pylib \<Rightarrow> url \<Rightarrow> bool" where
  "parsed L u = (case get_tokens_from_filename L u of Inl e \<Rightarrow> False | Inr t \<Rightarrow> True)"

definition key_of :: "pylib \<Rightarrow> url \<Rightarrow> string" where
  "key_of L u = (case get_tokens_from_filename L u of Inl e \<Rightarrow> [] | Inr t \<Rightarrow> granule_id L t)"

definition procs_of :: "pylib \<Rightarrow> url \<Rightarrow> datetime \<times> datetime" where
  "procs_of L u = (case get_tokens_from_filename L u of Inl e \<Rightarrow> (0, 0) | Inr t \<Rightarrow> proc_dates t)"

text \<open>
  \<open>replaces p fp\<close>: the condition under which an incoming identifier with processing dates
  \<open>p\<close> replaces a kept one with dates \<open>fp\<close>, in the words of the specification: both dates
  of the kept one are at most the incoming ones, or its first date is strictly older while
  the second is not.
\<close>

definition replaces :: "datetime \<times> datetime \<Rightarrow> datetime \<times> datetime \<Rightarrow> bool" where
  "replaces p fp =
     ((fst p \<ge> fst fp \<and> snd p \<ge> snd fp) \<or> (fst p > fst fp \<and> \<not> snd p \<ge> snd fp))"

text \<open>
  \<open>newer a b\<close>: the pair \<open>a\<close> of processing dates is preferred to \<open>b\<close>: a later first date or,
  with equal first dates, a later second date.
\<close>

definition newer :: "datetime \<times> datetime \<Rightarrow> datetime \<times> datetime \<Rightarrow> bool" where
  "newer a b = (fst a > fst b \<or> (fst a = fst b \<and> snd a > snd b))"

text \<open>\<open>newest L xs u\<close>: no identifier of \<open>xs\<close> with the key of \<open>u\<close> has newer processing dates.\<close>

definition newest :: "pylib \<Rightarrow> url list \<Rightarrow> url \<Rightarrow> bool" where
  "newest L xs u =
     (\<forall>v\<in>set xs. key_of L v = key_of L u \<longrightarrow> \<not> newer (procs_of L v) (procs_of L u))"

text \<open>The loop invariant of \<^verbatim>\<open>skip_duplicate_granules\<close> after the identifiers \<open>xs\<close>.\<close>

definition dedup_inv :: "pylib \<Rightarrow> url list \<Rightarrow> keep_urls \<times> url list \<Rightarrow> bool" where
  "dedup_inv L xs s =
     (distinct (map fst (fst s)) \<and>
      (\<forall>v\<in>set xs. parsed L v \<and> map_of (fst s) (key_of L v) \<noteq> None) \<and>
      (\<forall>k K. map_of (fst s) k = Some K \<longrightarrow>
          K \<noteq> [] \<and> set K = {u \<in> set xs. key_of L u = k \<and> newest L xs u}) \<and>
      set (snd s) = {u \<in> set xs. \<not> newest L xs u})"

definition group_ok :: "pylib \<Rightarrow> string \<Rightarrow> url list \<Rightarrow> bool" where
  "group_ok L k K =
     ((\<forall>u\<in>set K. parsed L u \<and> key_of L u = k) \<and>
      (\<forall>u\<in>set K. \<forall>v\<in>set K. procs_of L u = procs_of L v))"

text \<open>
  The length of a variable of the cube along the record (\<^verbatim>\<open>mid_date\<close>) axis; \<open>None\<close> for
  a variable that is not dimensioned by it.
\<close>

fun record_len :: "cube_var \<Rightarrow> nat option" where
  "record_len (Spatial arrays) = Some (length arrays)"
| "record_len (PerRecord data) = Some (length data)"
| "record_len (Scalar a) = None"

text \<open>
  \<open>layers_ok n lay\<close>: the record axis of the dataset has \<open>n\<close> positions and so has every
  variable of it that is dimensioned by the record axis.
\<close>

definition layers_ok :: "nat \<Rightarrow> dataset \<Rightarrow> bool" where
  "layers_ok n lay =
     (length (d_mid_date lay) = n \<and>
      (\<forall>p\<in>set (d_vars lay). record_len (snd p) = None \<or> record_len (snd p) = Some n))"

definition work_ok :: "nat \<Rightarrow> work \<Rightarrow> bool" where
  "work_ok n w = layers_ok n (w_layers w)"

text \<open>A stage keeps the invariant.\<close>

definition preserves :: "nat \<Rightarrow> (work \<Rightarrow> error + work) \<Rightarrow> bool" where
  "preserves n stage = (\<forall>w w'. work_ok n w \<longrightarrow> stage w = Inr w' \<longrightarrow> work_ok n w')"

text \<open>
  \<open>runs ss gs\<close>: the stages \<open>ss\<close> return on every working state whose granules are \<open>gs\<close>;
  \<open>without name g\<close> is \<open>g\<close> after \<^verbatim>\<open>drop_vars(name)\<close>.
\<close>

definition without :: "string \<Rightarrow> granule \<Rightarrow> granule" where
  "without name g = g\<lparr>g_vars := filter (\<lambda>p. fst p \<noteq> name) (g_vars g)\<rparr>"

definition runs :: "(work \<Rightarrow> error + work) list \<Rightarrow> granule list \<Rightarrow> bool" where
  "runs ss gs = (\<forall>w. w_ds w = gs \<longrightarrow> (\<exists>w'. run_stages ss w = Inr w'))"

text \<open>The variables that \<^verbatim>\<open>combine_layers\<close> hands to \<^verbatim>\<open>process_v_attributes\<close>.\<close>

definition velocity_components :: "string list" where
  "velocity_components =
     [DataVars_VX, DataVars_VY, DataVars_VA, DataVars_VR, DataVars_VXP, DataVars_VYP]"

text \<open>
  The three stable-count attributes of \<open>var_name\<close> are carried by every record of the batch
  whenever the first record carries them.
\<close>

definition counts_consistent :: "string \<Rightarrow> granule list \<Rightarrow> bool" where
  "counts_consistent var_name gs =
     (\<forall>attr_name\<in>set [DataVars_STABLE_COUNT, DataVars_STABLE_COUNT_SLOW, DataVars_STABLE_COUNT_MASK].
        has_var_attr var_name attr_name (hd gs) \<longrightarrow>
        (\<forall>g\<in>set gs. has_var_attr var_name attr_name g))"










section \<open>Example inputs\<close>

text \<open>
  A small instance of the library functions for the examples: a date \<^verbatim>\<open>YYYYMMDD\<close> is
  placed on the time line at the number it spells, which orders dates as the calendar does.
\<close>

fun digits_val :: "nat \<Rightarrow> string \<Rightarrow> nat option" where
  "digits_val acc [] = Some acc"
| "digits_val acc (c # cs) =
     (if 48 \<le> (of_char c :: nat) \<and> (of_char c :: nat) \<le> 57
      then digits_val (10 * acc + (of_char c - 48)) cs
      else None)"

definition example_lib :: pylib where
  "example_lib =
     \<lparr>strptime = (\<lambda>v fmt. if length v = 8 then map_option int (digits_val 0 v) else None),
      strftime = (\<lambda>d fmt. str_int d),
      int_of_str = (\<lambda>s. if s = [] then None else map_option int (digits_val 0 s))\<rparr>"

text \<open>
  Four identifiers of one image pair (acquired 2015-08-21 and 2015-07-20, path/row
  011002), processed on different dates, and one of another pair.
\<close>

definition url_jan :: url where
  "url_jan = ''v/LC08_L1TP_011002_20150821_20200101_01_T1_X_LC08_L1TP_011002_20150720_20200101_01_T1.nc''"

definition url_feb :: url where
  "url_feb = ''v/LC08_L1TP_011002_20150821_20200201_01_T1_X_LC08_L1TP_011002_20150720_20200201_01_T1.nc''"

definition url_feb2 :: url where
  "url_feb2 = ''w/LC08_L1TP_011002_20150821_20200201_01_T1_X_LC08_L1TP_011002_20150720_20200201_01_T1.nc''"

definition url_mar :: url where
  "url_mar = ''v/LC08_L1TP_011002_20150821_20200301_01_T1_X_LC08_L1TP_011002_20150720_20200301_01_T1.nc''"

definition url_other :: url where
  "url_other = ''v/LC08_L1TP_012003_20160101_20200101_01_T1_X_LC08_L1TP_012003_20151201_20200101_01_T1.nc''"

definition empty_cube :: cube where
  "empty_cube =
     \<lparr>ds = [], dates = [], urls = [], num_urls_from_api = None,
      skipped_proj_granules = [], skipped_empty_granules = [], skipped_double_granules = [],
      layers = LayersNone\<rparr>"


text \<open>
  A configuration with the target projection 32628, a grid of two columns and one row,
  and batches of one granule.
\<close>

definition example_config :: config where
  "example_config =
     \<lparr>projection = ''32628'', grid_x_len = 2, grid_y_len = 1, NUM_GRANULES_TO_WRITE = 1\<rparr>"

text \<open>
  A granule of the current format in the projection \<open>epsg\<close>: the mandatory variables, no
  optional one.
\<close>

definition example_var :: "int \<Rightarrow> data_array" where
  "example_var n = \<lparr>da_values = [[Some n, None]], da_attrs = [(''grid_mapping'', AStr ''mapping'')]\<rparr>"

definition example_granule :: "int \<Rightarrow> granule" where
  "example_granule epsg =
     \<lparr>g_vars =
        [(''mapping'', \<lparr>da_values = [], da_attrs = [(''spatial_epsg'', ANum epsg),
                        (''grid_mapping_name'', AStr ''universal_transverse_mercator'')]\<rparr>),
         (''img_pair_info'', \<lparr>da_values = [], da_attrs =
            [(''mission_img1'', AStr ''L''), (''sensor_img1'', AStr ''C''),
             (''satellite_img1'', AStr ''8''), (''mission_img2'', AStr ''L''),
             (''sensor_img2'', AStr ''C''), (''satellite_img2'', AStr ''8''),
             (''date_dt'', ANum 32), (''date_center'', AStr ''20150805''),
             (''roi_valid_percentage'', ANum 38), (''autoRIFT_software_version'', AStr ''1.0''),
             (''acquisition_date_img1'', AStr ''20150821''),
             (''acquisition_date_img2'', AStr ''20150720''),
             (''time_standard_img1'', AStr ''UTC''), (''time_standard_img2'', AStr ''UTC'')]\<rparr>),
         (''v'', example_var 5), (''vx'', example_var 3), (''vy'', example_var 4),
         (''chip_size_height'', example_var 16), (''chip_size_width'', example_var 16),
         (''interp_mask'', example_var 0)],
      g_attrs = [(''autoRIFT_software_version'', AStr ''1.0''),
                 (''autoRIFT_parameter_file'', AStr ''params.nc'')]\<rparr>"

text \<open>
  A store of granules in which \<open>url_other\<close> is in the projection 32627 and every other
  identifier in the target projection; every granule overlaps the grid.
\<close>

definition example_env :: env where
  "example_env =
     \<lparr>open_dataset = (\<lambda>u. if u = url_other then Inr (example_granule 32627)
                            else Inr (example_granule 32628)),
      crop_region = (\<lambda>g. Inr (Some (20150805, g)))\<rparr>"

text \<open>An accumulator that holds one accepted record.\<close>

definition example_batch :: cube where
  "example_batch =
     empty_cube\<lparr>ds := [example_granule 32628], dates := [Some 20150805], urls := [url_jan]\<rparr>"


text \<open>
  A granule of the older format: its projection is described by \<^verbatim>\<open>UTM_Projection\<close>
  and it has no variable \<^verbatim>\<open>mapping\<close>.
\<close>

definition example_utm_granule :: granule where
  "example_utm_granule =
     \<lparr>g_vars = (DataVars_UTM_PROJECTION,
                 \<lparr>da_values = [], da_attrs = [(''spatial_epsg'', ANum 32628)]\<rparr>) #
                g_vars (without DataVars_MAPPING (example_granule 32628)),
      g_attrs = g_attrs (example_granule 32628)\<rparr>"





section \<open>Deduplication: the loop invariant\<close>


lemma parsedD: "parsed L u \<Longrightarrow> \<exists>t. get_tokens_from_filename L u = Inr t \<and> key_of L u = granule_id L t \<and> procs_of L u = proc_dates t"
  by (auto simp: parsed_def key_of_def procs_of_def split: sum.splits)

lemma find_identical_parsed:
  "\<forall>f\<in>set found. parsed L f \<Longrightarrow>
   find_identical L p1 p2 found = Inr (\<exists>f\<in>set found. procs_of L f = (p1, p2))"
proof (induction found)
  case Nil
  then show ?case by simp
next
  case (Cons f found)
  from Cons.prems obtain t where t: "get_tokens_from_filename L f = Inr t" "procs_of L f = proc_dates t"
    using parsedD by (metis list.set_intros(1))
  from Cons have IH: "find_identical L p1 p2 found = Inr (\<exists>f\<in>set found. procs_of L f = (p1, p2))" by simp
  show ?case using t IH by (auto simp: prod_eq_iff)
qed

lemma collect_remove_urls_parsed:
  "\<forall>f\<in>set found. parsed L f \<Longrightarrow>
   collect_remove_urls L p1 p2 found = Inr (filter (\<lambda>f. replaces (p1, p2) (procs_of L f)) found)"
proof (induction found)
  case Nil
  then show ?case by simp
next
  case (Cons f found)
  from Cons.prems obtain t where t: "get_tokens_from_filename L f = Inr t" "procs_of L f = proc_dates t"
    using parsedD by (metis list.set_intros(1))
  from Cons have IH: "collect_remove_urls L p1 p2 found = Inr (filter (\<lambda>f. replaces (p1, p2) (procs_of L f)) found)" by simp
  show ?case using t IH by (auto simp: replaces_def)
qed

lemma find_identical_False_parsed:
  "find_identical L p1 p2 found = Inr False \<Longrightarrow> \<forall>f\<in>set found. parsed L f"
  by (induction found) (auto simp: parsed_def split: sum.splits if_splits)


lemma newer_trans: "newer a b \<Longrightarrow> newer b c \<Longrightarrow> newer a c"
  by (auto simp: newer_def)

lemma newer_total: "\<not> newer a b \<Longrightarrow> \<not> newer b a \<Longrightarrow> a = b"
  by (auto simp: newer_def prod_eq_iff)

lemma newer_irrefl: "\<not> newer a a"
  by (auto simp: newer_def)

lemma newer_asym: "newer a b \<Longrightarrow> \<not> newer b a"
  by (auto simp: newer_def)

lemma replaces_iff: "replaces p fp \<longleftrightarrow> newer p fp \<or> p = fp"
  by (auto simp: replaces_def newer_def prod_eq_iff)

lemma skip_step_cases:
  assumes tok: "get_tokens_from_filename L u = Inr t"
    and pf: "\<forall>found. map_of keep (granule_id L t) = Some found \<longrightarrow> (\<forall>f\<in>set found. parsed L f)"
  shows "skip_step L (keep, skipped) u =
     (case map_of keep (granule_id L t) of
        None \<Rightarrow> Inr (AList.update (granule_id L t) [u] keep, skipped)
      | Some found \<Rightarrow>
          if (\<exists>f\<in>set found. procs_of L f = proc_dates t)
          then Inr (AList.update (granule_id L t) (found @ [u]) keep, skipped)
          else if filter (\<lambda>f. replaces (proc_dates t) (procs_of L f)) found \<noteq> []
          then Inr (AList.update (granule_id L t)
                  (filter (\<lambda>each. each \<notin> set (filter (\<lambda>f. replaces (proc_dates t) (procs_of L f)) found)) found @ [u]) keep,
                  skipped @ filter (\<lambda>f. replaces (proc_dates t) (procs_of L f)) found)
          else Inr (keep, skipped @ [u]))"
proof (cases "map_of keep (granule_id L t)")
  case None
  then show ?thesis using tok by (simp add: skip_step_def)
next
  case (Some found)
  then have p: "\<forall>f\<in>set found. parsed L f" using pf by blast
  have fi: "find_identical L (fst (proc_dates t)) (snd (proc_dates t)) found
            = Inr (\<exists>f\<in>set found. procs_of L f = proc_dates t)"
    using find_identical_parsed [OF p, of "fst (proc_dates t)" "snd (proc_dates t)"] by simp
  have cr: "collect_remove_urls L (fst (proc_dates t)) (snd (proc_dates t)) found
            = Inr (filter (\<lambda>f. replaces (proc_dates t) (procs_of L f)) found)"
    using collect_remove_urls_parsed [OF p, of "fst (proc_dates t)" "snd (proc_dates t)"] by simp
  show ?thesis using tok Some fi cr by (simp add: skip_step_def)
qed

lemma newest_append_other:
  "key_of L v \<noteq> key_of L u \<Longrightarrow> newest L (xs @ [u]) v = newest L xs v"
  by (auto simp: newest_def)

lemma newest_append_same:
  "key_of L v = key_of L u \<Longrightarrow>
   newest L (xs @ [u]) v = (newest L xs v \<and> \<not> newer (procs_of L u) (procs_of L v))"
  by (auto simp: newest_def)

lemma skip_step_inv:
  assumes inv: "dedup_inv L xs s" and step: "skip_step L s u = Inr s'"
  shows "dedup_inv L (xs @ [u]) s'"
proof -
  obtain keep skipped where s: "s = (keep, skipped)" by (cases s)
  from step s obtain t where tok: "get_tokens_from_filename L u = Inr t"
    by (auto simp: skip_step_def split: sum.splits)
  define k where "k = granule_id L t"
  define p where "p = proc_dates t"
  have pu: "parsed L u" and ku: "key_of L u = k" and prU: "procs_of L u = p"
    using tok by (simp_all add: parsed_def key_of_def procs_of_def k_def p_def)
  have dist: "distinct (map fst keep)"
    and allp: "\<And>v. v \<in> set xs \<Longrightarrow> parsed L v"
    and pres: "\<And>v. v \<in> set xs \<Longrightarrow> map_of keep (key_of L v) \<noteq> None"
    and grp: "\<And>k K. map_of keep k = Some K \<Longrightarrow> K \<noteq> [] \<and> set K = {u \<in> set xs. key_of L u = k \<and> newest L xs u}"
    and skp: "set skipped = {u \<in> set xs. \<not> newest L xs u}"
    using inv s by (auto simp: dedup_inv_def)
  have pf: "\<forall>found. map_of keep (granule_id L t) = Some found \<longrightarrow> (\<forall>f\<in>set found. parsed L f)"
    using grp allp by blast
  note sc = skip_step_cases [OF tok pf, where skipped = skipped, folded k_def p_def]
  have invI: "\<And>keep' skipped'. distinct (map fst keep') \<Longrightarrow>
      (\<forall>v\<in>set (xs @ [u]). parsed L v \<and> map_of keep' (key_of L v) \<noteq> None) \<Longrightarrow>
      (\<forall>k K. map_of keep' k = Some K \<longrightarrow>
          K \<noteq> [] \<and> set K = {w \<in> set (xs @ [u]). key_of L w = k \<and> newest L (xs @ [u]) w}) \<Longrightarrow>
      set skipped' = {w \<in> set (xs @ [u]). \<not> newest L (xs @ [u]) w} \<Longrightarrow>
      dedup_inv L (xs @ [u]) (keep', skipped')"
    unfolding dedup_inv_def by simp
  have other: "\<And>v. key_of L v \<noteq> k \<Longrightarrow> newest L (xs @ [u]) v = newest L xs v"
    using newest_append_other ku by metis
  have same: "\<And>v. key_of L v = k \<Longrightarrow>
      newest L (xs @ [u]) v = (newest L xs v \<and> \<not> newer p (procs_of L v))"
    using newest_append_same ku prU by metis
  show ?thesis
  proof (cases "map_of keep k")
    case None
    then have s': "s' = (AList.update k [u] keep, skipped)" using sc step s by simp
    have nok: "\<And>v. v \<in> set xs \<Longrightarrow> key_of L v \<noteq> k" using pres None by metis
    have nu: "newest L (xs @ [u]) u" using nok ku by (auto simp: newest_def newer_irrefl)
    have nv: "\<And>v. v \<in> set xs \<Longrightarrow> newest L (xs @ [u]) v = newest L xs v"
      using nok other by blast
    show ?thesis unfolding s'
    proof (rule invI)
      show "distinct (map fst (AList.update k [u] keep))" using dist by (rule distinct_update)
      show "\<forall>v\<in>set (xs @ [u]). parsed L v \<and> map_of (AList.update k [u] keep) (key_of L v) \<noteq> None"
        using pu ku allp pres by (auto simp: update_conv')
      show "\<forall>k' K. map_of (AList.update k [u] keep) k' = Some K \<longrightarrow>
          K \<noteq> [] \<and> set K = {w \<in> set (xs @ [u]). key_of L w = k' \<and> newest L (xs @ [u]) w}"
      proof (intro allI impI)
        fix k' K assume a: "map_of (AList.update k [u] keep) k' = Some K"
        show "K \<noteq> [] \<and> set K = {w \<in> set (xs @ [u]). key_of L w = k' \<and> newest L (xs @ [u]) w}"
        proof (cases "k' = k")
          case True
          then have "K = [u]" using a by (simp add: update_conv')
          then show ?thesis using True nu ku nok by auto
        next
          case False
          then have "map_of keep k' = Some K" using a by (simp add: update_conv')
          from grp [OF this] show ?thesis using False ku other by auto
        qed
      qed
      show "set skipped = {w \<in> set (xs @ [u]). \<not> newest L (xs @ [u]) w}"
        using skp nv nu by auto
    qed
  next
    case (Some found)
    have fne: "found \<noteq> []" and fset: "set found = {u \<in> set xs. key_of L u = k \<and> newest L xs u}"
      using grp [OF Some] by auto
    have feq: "\<And>f g. f \<in> set found \<Longrightarrow> g \<in> set found \<Longrightarrow> procs_of L f = procs_of L g"
      using fset by (auto simp: newest_def intro: newer_total)
    define R where "R = filter (\<lambda>f. replaces p (procs_of L f)) found"
    have others: "\<And>k' K v. k' \<noteq> k \<Longrightarrow> map_of keep k' = Some K \<Longrightarrow>
        K \<noteq> [] \<and> set K = {w \<in> set (xs @ [u]). key_of L w = k' \<and> newest L (xs @ [u]) w}"
      using grp ku other by auto
    have fin: "\<And>f. f \<in> set found \<Longrightarrow> f \<in> set xs \<and> key_of L f = k \<and> newest L xs f"
      using fset by auto
    have inf: "\<And>v. v \<in> set xs \<Longrightarrow> key_of L v = k \<Longrightarrow> newest L xs v \<Longrightarrow> v \<in> set found"
      using fset by auto
    obtain f0 where f0: "f0 \<in> set found" using fne by (cases found) auto
    have below: "\<And>v. v \<in> set xs \<Longrightarrow> key_of L v = k \<Longrightarrow> \<not> newer (procs_of L v) (procs_of L f0)"
      using fin [OF f0] by (auto simp: newest_def)
    show ?thesis
    proof (cases "\<exists>f\<in>set found. procs_of L f = p")
      case True
      then have s': "s' = (AList.update k (found @ [u]) keep, skipped)"
        using sc step s Some by simp
      have allp': "\<And>f. f \<in> set found \<Longrightarrow> procs_of L f = p" using True feq by metis
      have nu: "newest L (xs @ [u]) u"
        using below allp' [OF f0] ku prU by (auto simp: newest_def newer_irrefl)
      have nv: "\<And>v. v \<in> set xs \<Longrightarrow> newest L (xs @ [u]) v = newest L xs v"
      proof -
        fix v assume v: "v \<in> set xs"
        show "newest L (xs @ [u]) v = newest L xs v"
        proof (cases "key_of L v = k")
          case True
          then show ?thesis using same [OF True] inf [OF v True] allp' newer_irrefl by metis
        next
          case False
          then show ?thesis using other by simp
        qed
      qed
      show ?thesis unfolding s'
      proof (rule invI)
        show "distinct (map fst (AList.update k (found @ [u]) keep))" using dist by (rule distinct_update)
        show "\<forall>v\<in>set (xs @ [u]). parsed L v \<and> map_of (AList.update k (found @ [u]) keep) (key_of L v) \<noteq> None"
          using pu ku allp pres by (auto simp: update_conv')
        show "\<forall>k' K. map_of (AList.update k (found @ [u]) keep) k' = Some K \<longrightarrow>
            K \<noteq> [] \<and> set K = {w \<in> set (xs @ [u]). key_of L w = k' \<and> newest L (xs @ [u]) w}"
        proof (intro allI impI)
          fix k' K assume a: "map_of (AList.update k (found @ [u]) keep) k' = Some K"
          show "K \<noteq> [] \<and> set K = {w \<in> set (xs @ [u]). key_of L w = k' \<and> newest L (xs @ [u]) w}"
          proof (cases "k' = k")
            case True
            then have "K = found @ [u]" using a by (simp add: update_conv')
            then show ?thesis using True nu nv ku fset by auto
          next
            case False
            then have "map_of keep k' = Some K" using a by (simp add: update_conv')
            from others [OF False this] show ?thesis .
          qed
        qed
        show "set skipped = {w \<in> set (xs @ [u]). \<not> newest L (xs @ [u]) w}"
          using skp nv nu by auto
      qed
    next
      case False
      have ne: "\<And>f. f \<in> set found \<Longrightarrow> procs_of L f \<noteq> p" using False by blast
      show ?thesis
      proof (cases "R \<noteq> []")
        case True
        then have s': "s' = (AList.update k (filter (\<lambda>each. each \<notin> set R) found @ [u]) keep, skipped @ R)"
          using sc step s Some False by (simp add: R_def)
        from True have "set R \<noteq> {}" by simp
        then obtain f1 where f1: "f1 \<in> set found" "replaces p (procs_of L f1)"
          unfolding R_def by auto
        then have "newer p (procs_of L f1)" using ne replaces_iff by metis
        then have allnew: "\<And>f. f \<in> set found \<Longrightarrow> newer p (procs_of L f)"
          using feq f1(1) by metis
        have Rset: "set R = set found" using allnew by (auto simp: R_def replaces_iff)
        have K': "filter (\<lambda>each. each \<notin> set R) found @ [u] = [u]" using Rset by simp
        have nu: "newest L (xs @ [u]) u"
        proof -
          have "\<And>v. v \<in> set xs \<Longrightarrow> key_of L v = k \<Longrightarrow> \<not> newer (procs_of L v) p"
            using below allnew [OF f0] newer_trans by blast
          then show ?thesis using ku prU by (auto simp: newest_def newer_irrefl)
        qed
        have nv: "\<And>v. v \<in> set xs \<Longrightarrow> key_of L v = k \<Longrightarrow> \<not> newest L (xs @ [u]) v"
          using same inf allnew by blast
        show ?thesis unfolding s' K'
        proof (rule invI)
          show "distinct (map fst (AList.update k [u] keep))" using dist by (rule distinct_update)
          show "\<forall>v\<in>set (xs @ [u]). parsed L v \<and> map_of (AList.update k [u] keep) (key_of L v) \<noteq> None"
            using pu ku allp pres by (auto simp: update_conv')
          show "\<forall>k' K. map_of (AList.update k [u] keep) k' = Some K \<longrightarrow>
              K \<noteq> [] \<and> set K = {w \<in> set (xs @ [u]). key_of L w = k' \<and> newest L (xs @ [u]) w}"
          proof (intro allI impI)
            fix k' K assume a: "map_of (AList.update k [u] keep) k' = Some K"
            show "K \<noteq> [] \<and> set K = {w \<in> set (xs @ [u]). key_of L w = k' \<and> newest L (xs @ [u]) w}"
            proof (cases "k' = k")
              case True
              then have "K = [u]" using a by (simp add: update_conv')
              then show ?thesis using True nu nv ku by auto
            next
              case False
              then have "map_of keep k' = Some K" using a by (simp add: update_conv')
              from others [OF False this] show ?thesis .
            qed
          qed
          show "set (skipped @ R) = {w \<in> set (xs @ [u]). \<not> newest L (xs @ [u]) w}"
          proof -
            have "\<And>w. w \<in> set xs \<Longrightarrow> (\<not> newest L (xs @ [u]) w) = (\<not> newest L xs w \<or> w \<in> set found)"
              using other nv fin inf same by blast
            then show ?thesis using skp Rset nu fin by auto
          qed
        qed
      next
        case False
        then have s': "s' = (keep, skipped @ [u])"
          using sc step s Some \<open>\<not> (\<exists>f\<in>set found. procs_of L f = p)\<close> by (simp add: R_def)
        have nor: "\<And>f. f \<in> set found \<Longrightarrow> \<not> replaces p (procs_of L f)"
          using False by (auto simp: R_def filter_empty_conv)
        then have notnew: "\<And>f. f \<in> set found \<Longrightarrow> \<not> newer p (procs_of L f)"
          using replaces_iff by blast
        have "newer (procs_of L f0) p" using nor [OF f0] ne [OF f0] replaces_iff newer_total by metis
        then have nu: "\<not> newest L (xs @ [u]) u"
          using fin [OF f0] ku prU by (auto simp: newest_def)
        have nv: "\<And>v. v \<in> set xs \<Longrightarrow> newest L (xs @ [u]) v = newest L xs v"
        proof -
          fix v assume v: "v \<in> set xs"
          show "newest L (xs @ [u]) v = newest L xs v"
          proof (cases "key_of L v = k")
            case True
            then show ?thesis using same [OF True] inf [OF v True] notnew by blast
          next
            case False
            then show ?thesis using other by simp
          qed
        qed
        show ?thesis unfolding s'
        proof (rule invI)
          show "distinct (map fst keep)" by (rule dist)
          show "\<forall>v\<in>set (xs @ [u]). parsed L v \<and> map_of keep (key_of L v) \<noteq> None"
            using pu ku allp pres Some by auto
          show "\<forall>k' K. map_of keep k' = Some K \<longrightarrow>
              K \<noteq> [] \<and> set K = {w \<in> set (xs @ [u]). key_of L w = k' \<and> newest L (xs @ [u]) w}"
            using grp nv nu by auto
          show "set (skipped @ [u]) = {w \<in> set (xs @ [u]). \<not> newest L (xs @ [u]) w}"
            using skp nv nu by auto
        qed
      qed
    qed
  qed
qed

lemma dedup_inv_init: "dedup_inv L [] ([], [])"
  by (simp add: dedup_inv_def)

lemma skip_loop_inv:
  "dedup_inv L xs s \<Longrightarrow> skip_loop L s ys = Inr s' \<Longrightarrow> dedup_inv L (xs @ ys) s'"
proof (induction ys arbitrary: xs s)
  case Nil
  then show ?case by simp
next
  case (Cons y ys)
  from Cons.prems(2) obtain s1 where s1: "skip_step L s y = Inr s1" "skip_loop L s1 ys = Inr s'"
    by (auto split: sum.splits)
  have "dedup_inv L (xs @ [y]) s1" using skip_step_inv [OF Cons.prems(1) s1(1)] .
  from Cons.IH [OF this s1(2)] show ?case by simp
qed


lemma update_absent: "k \<notin> fst ` set al \<Longrightarrow> AList.update k v al = al @ [(k, v)]"
  by (induction al) auto

lemma update_last_entry: "k \<notin> fst ` set al \<Longrightarrow> AList.update k v (al @ [(k, w)]) = al @ [(k, v)]"
  by (induction al) auto

lemma map_of_last_entry: "k \<notin> fst ` set al \<Longrightarrow> map_of (al @ [(k, w)]) k = Some w"
  by (induction al) auto

lemma skip_loop_append:
  "skip_loop L s (xs @ ys) =
     (case skip_loop L s xs of Inl e \<Rightarrow> Inl e | Inr s' \<Rightarrow> skip_loop L s' ys)"
  by (induction xs arbitrary: s) (auto split: sum.splits)

lemma skip_loop_same_group:
  assumes "k \<notin> fst ` set keep0" and "pre \<noteq> []" and "group_ok L k (pre @ us)"
  shows "skip_loop L (keep0 @ [(k, pre)], sk) us = Inr (keep0 @ [(k, pre @ us)], sk)"
  using assms
proof (induction us arbitrary: pre)
  case Nil
  then show ?case by simp
next
  case (Cons v us)
  have pv: "parsed L v" and kv: "key_of L v = k"
    using Cons.prems(3) by (auto simp: group_ok_def)
  then obtain t where t: "get_tokens_from_filename L v = Inr t" "granule_id L t = k" "procs_of L v = proc_dates t"
    using parsedD by metis
  have m: "map_of (keep0 @ [(k, pre)]) (granule_id L t) = Some pre"
    using map_of_last_entry [OF Cons.prems(1)] t(2) by simp
  have "\<forall>f\<in>set pre. parsed L f" using Cons.prems(3) by (auto simp: group_ok_def)
  then have pf: "\<forall>found. map_of (keep0 @ [(k, pre)]) (granule_id L t) = Some found \<longrightarrow> (\<forall>f\<in>set found. parsed L f)"
    using m by simp
  obtain f where f: "f \<in> set pre" using Cons.prems(2) by (cases pre) auto
  then have "procs_of L f = proc_dates t" using Cons.prems(3) t(3) by (auto simp: group_ok_def)
  then have ex: "\<exists>f\<in>set pre. procs_of L f = proc_dates t" using f by blast
  have step: "skip_step L (keep0 @ [(k, pre)], sk) v = Inr (keep0 @ [(k, pre @ [v])], sk)"
    using skip_step_cases [OF t(1) pf, where skipped = sk] ex m
      update_last_entry [OF Cons.prems(1)] t(2)
    by simp
  have "skip_loop L (keep0 @ [(k, pre @ [v])], sk) us = Inr (keep0 @ [(k, (pre @ [v]) @ us)], sk)"
    using Cons.IH [of "pre @ [v]"] Cons.prems by simp
  then show ?case using step by simp
qed

lemma skip_loop_new_group:
  assumes "k \<notin> fst ` set keep0" and "K \<noteq> []" and "group_ok L k K"
  shows "skip_loop L (keep0, sk) K = Inr (keep0 @ [(k, K)], sk)"
proof -
  obtain u us where K: "K = u # us" using assms(2) by (cases K) auto
  have pu: "parsed L u" and ku: "key_of L u = k" using assms(3) K by (auto simp: group_ok_def)
  then obtain t where t: "get_tokens_from_filename L u = Inr t" "granule_id L t = k"
    using parsedD by metis
  have none: "map_of keep0 k = None" using assms(1) by (simp add: map_of_eq_None_iff)
  have step: "skip_step L (keep0, sk) u = Inr (keep0 @ [(k, [u])], sk)"
    using t none assms(1) by (simp add: skip_step_def update_absent)
  have "skip_loop L (keep0 @ [(k, [u])], sk) us = Inr (keep0 @ [(k, [u] @ us)], sk)"
    using skip_loop_same_group [of k keep0 "[u]" L us sk] assms(1,3) K by simp
  then show ?thesis using step K by simp
qed

lemma skip_loop_groups:
  assumes "distinct (map fst (keep0 @ rest))"
    and "\<forall>(k, K)\<in>set rest. K \<noteq> [] \<and> group_ok L k K"
  shows "skip_loop L (keep0, sk) (concat (map snd rest)) = Inr (keep0 @ rest, sk)"
  using assms
proof (induction rest arbitrary: keep0)
  case Nil
  then show ?case by simp
next
  case (Cons g rest)
  obtain k K where g: "g = (k, K)" by (cases g)
  have nk: "k \<notin> fst ` set keep0" using Cons.prems(1) g by auto
  have ok: "K \<noteq> []" "group_ok L k K" using Cons.prems(2) g by auto
  have first: "skip_loop L (keep0, sk) K = Inr (keep0 @ [(k, K)], sk)"
    using skip_loop_new_group [OF nk ok] .
  have "skip_loop L (keep0 @ [(k, K)], sk) (concat (map snd rest)) = Inr ((keep0 @ [(k, K)]) @ rest, sk)"
    using Cons.IH [of "keep0 @ [(k, K)]"] Cons.prems g by simp
  then show ?case using first g by (simp add: skip_loop_append)
qed

lemma dedup_inv_groups:
  assumes "dedup_inv L xs (keep, sk)"
  shows "distinct (map fst keep) \<and> (\<forall>(k, K)\<in>set keep. K \<noteq> [] \<and> group_ok L k K)"
proof -
  have dist: "distinct (map fst keep)" using assms by (simp add: dedup_inv_def)
  have "\<And>k K. (k, K) \<in> set keep \<Longrightarrow> K \<noteq> [] \<and> group_ok L k K"
  proof -
    fix k K assume "(k, K) \<in> set keep"
    then have m: "map_of keep k = Some K" using dist by simp
    then have K: "K \<noteq> []" "set K = {u \<in> set xs. key_of L u = k \<and> newest L xs u}"
      using assms by (auto simp: dedup_inv_def)
    have p: "\<And>v. v \<in> set xs \<Longrightarrow> parsed L v" using assms by (auto simp: dedup_inv_def)
    have "group_ok L k K"
      unfolding group_ok_def using K(2) p by (auto simp: newest_def intro: newer_total)
    then show "K \<noteq> [] \<and> group_ok L k K" using K(1) by simp
  qed
  then show ?thesis using dist by auto
qed

lemma skip_loop_total:
  assumes "dedup_inv L xs s" and "\<forall>u\<in>set ys. parsed L u"
  shows "\<exists>s'. skip_loop L s ys = Inr s'"
  using assms
proof (induction ys arbitrary: xs s)
  case Nil
  then show ?case by simp
next
  case (Cons y ys)
  obtain keep sk where s: "s = (keep, sk)" by (cases s)
  from Cons.prems(2) obtain t where t: "get_tokens_from_filename L y = Inr t"
    using parsedD by (metis list.set_intros(1))
  have pf: "\<forall>found. map_of keep (granule_id L t) = Some found \<longrightarrow> (\<forall>f\<in>set found. parsed L f)"
    using Cons.prems(1) s by (auto simp: dedup_inv_def)
  have "\<exists>s1. skip_step L s y = Inr s1"
    unfolding s skip_step_cases [OF t pf, where skipped = sk]
    by (simp split: option.splits)
  then obtain s1 where s1: "skip_step L s y = Inr s1" by blast
  have "dedup_inv L (xs @ [y]) s1" using skip_step_inv [OF Cons.prems(1) s1] .
  from Cons.IH [OF this] Cons.prems(2) obtain s' where "skip_loop L s1 ys = Inr s'" by auto
  then show ?case using s1 by simp
qed


lemma skip_duplicate_granules_inv:
  assumes "skip_duplicate_granules L st found_urls = Inr (granules, st')"
  shows "\<exists>keep. dedup_inv L found_urls (keep, skipped_double_granules st') \<and>
                granules = concat (map snd keep)"
proof -
  from assms obtain keep skipped where k: "skip_loop L ([], []) found_urls = Inr (keep, skipped)"
    and g: "granules = concat (map snd keep)"
    and s: "st' = st\<lparr>num_urls_from_api := Some (length found_urls), skipped_double_granules := skipped\<rparr>"
    by (auto simp: skip_duplicate_granules_def split: sum.splits)
  have "dedup_inv L ([] @ found_urls) (keep, skipped)"
    using skip_loop_inv [OF dedup_inv_init k] .
  then show ?thesis using g s by auto
qed

text \<open>The output is the set of the identifiers with the newest processing dates of their key.\<close>

lemma kept_iff_newest:
  assumes "skip_duplicate_granules L st found_urls = Inr (granules, st')"
  shows "u \<in> set granules \<longleftrightarrow> u \<in> set found_urls \<and> newest L found_urls u"
proof -
  from skip_duplicate_granules_inv [OF assms] obtain keep where
    inv: "dedup_inv L found_urls (keep, skipped_double_granules st')"
    and g: "granules = concat (map snd keep)" by blast
  have dist: "distinct (map fst keep)" using inv by (simp add: dedup_inv_def)
  have grp: "\<And>k K. map_of keep k = Some K \<Longrightarrow>
      set K = {u \<in> set found_urls. key_of L u = k \<and> newest L found_urls u}"
    using inv by (simp add: dedup_inv_def)
  have "\<forall>v\<in>set found_urls. parsed L v \<and> map_of keep (key_of L v) \<noteq> None"
    using inv unfolding dedup_inv_def fst_conv by blast
  then have pres: "\<And>v. v \<in> set found_urls \<Longrightarrow> map_of keep (key_of L v) \<noteq> None"
    by blast
  show ?thesis
  proof
    assume "u \<in> set granules"
    then obtain k K where "(k, K) \<in> set keep" "u \<in> set K" using g by auto
    then have "map_of keep k = Some K" using dist by simp
    from grp [OF this] \<open>u \<in> set K\<close> show "u \<in> set found_urls \<and> newest L found_urls u" by auto
  next
    assume a: "u \<in> set found_urls \<and> newest L found_urls u"
    then obtain K where K: "map_of keep (key_of L u) = Some K" using pres by auto
    from grp [OF this] a have "u \<in> set K" by auto
    moreover have "(key_of L u, K) \<in> set keep" using K by (rule map_of_SomeD)
    ultimately show "u \<in> set granules" using g by force
  qed
qed

lemma skipped_iff_not_newest:
  assumes "skip_duplicate_granules L st found_urls = Inr (granules, st')"
  shows "u \<in> set (skipped_double_granules st') \<longleftrightarrow> u \<in> set found_urls \<and> \<not> newest L found_urls u"
proof -
  from skip_duplicate_granules_inv [OF assms] obtain keep where
    inv: "dedup_inv L found_urls (keep, skipped_double_granules st')" by blast
  then have "set (skipped_double_granules st') = {u \<in> set found_urls. \<not> newest L found_urls u}"
    by (simp add: dedup_inv_def)
  then show ?thesis by auto
qed

lemma skip_duplicate_granules_total:
  assumes "\<forall>u\<in>set found_urls. parsed L u"
  shows "\<exists>r. skip_duplicate_granules L st found_urls = Inr r"
  using skip_loop_total [OF dedup_inv_init assms]
  by (auto simp: skip_duplicate_granules_def split: sum.splits)

text \<open>Evaluation of the examples.\<close>

lemmas example_simps =
  get_tokens_from_filename_def basename_def token_at_def date_at_def example_lib_def
  granule_id_def proc_dates_def str_int_def digit_char_def DATE_FORMAT_def Let_def
  str_nat.simps

lemma tokens_jan:
  "get_tokens_from_filename example_lib url_jan =
     Inr (20150821, 20200101, ''011002'', 20150720, 20200101, ''011002'')"
  by (simp add: example_simps url_jan_def)

lemma tokens_feb:
  "get_tokens_from_filename example_lib url_feb =
     Inr (20150821, 20200201, ''011002'', 20150720, 20200201, ''011002'')"
  by (simp add: example_simps url_feb_def)

lemma tokens_feb2:
  "get_tokens_from_filename example_lib url_feb2 =
     Inr (20150821, 20200201, ''011002'', 20150720, 20200201, ''011002'')"
  by (simp add: example_simps url_feb2_def)

lemma tokens_mar:
  "get_tokens_from_filename example_lib url_mar =
     Inr (20150821, 20200301, ''011002'', 20150720, 20200301, ''011002'')"
  by (simp add: example_simps url_mar_def)

lemma example_key:
  "granule_id example_lib (20150821, p1, ''011002'', 20150720, p2, ''011002'') =
     ''20150821_011002_20150720_011002''"
  by (simp add: example_simps)

lemma url_neq:
  "url_jan \<noteq> url_feb" "url_jan \<noteq> url_feb2" "url_jan \<noteq> url_mar"
  "url_feb \<noteq> url_feb2" "url_feb \<noteq> url_mar" "url_feb2 \<noteq> url_mar"
  "url_feb \<noteq> url_jan" "url_feb2 \<noteq> url_jan" "url_mar \<noteq> url_jan"
  "url_feb2 \<noteq> url_feb" "url_mar \<noteq> url_feb" "url_mar \<noteq> url_feb2"
  by (simp_all add: url_jan_def url_feb_def url_feb2_def url_mar_def)

lemmas example_run =
  skip_duplicate_granules_def skip_step_def tokens_jan tokens_feb tokens_feb2 tokens_mar
  example_key proc_dates_def url_neq empty_cube_def

lemma run_jan_feb:
  "skip_duplicate_granules example_lib empty_cube [url_jan, url_feb] =
     Inr ([url_feb], empty_cube\<lparr>num_urls_from_api := Some 2, skipped_double_granules := [url_jan]\<rparr>)"
  by (simp add: example_run)

lemma run_feb_jan:
  "skip_duplicate_granules example_lib empty_cube [url_feb, url_jan] =
     Inr ([url_feb], empty_cube\<lparr>num_urls_from_api := Some 2, skipped_double_granules := [url_jan]\<rparr>)"
  by (simp add: example_run)

lemma run_feb_feb2:
  "skip_duplicate_granules example_lib empty_cube [url_feb, url_feb2] =
     Inr ([url_feb, url_feb2], empty_cube\<lparr>num_urls_from_api := Some 2, skipped_double_granules := []\<rparr>)"
  by (simp add: example_run)

lemma run_feb_feb2_mar:
  "skip_duplicate_granules example_lib empty_cube [url_feb, url_feb2, url_mar] =
     Inr ([url_mar], empty_cube\<lparr>num_urls_from_api := Some 3,
                                  skipped_double_granules := [url_feb, url_feb2]\<rparr>)"
  by (simp add: example_run)

lemma run_jan_feb_mar:
  "skip_duplicate_granules example_lib empty_cube [url_jan, url_feb, url_mar] =
     Inr ([url_mar], empty_cube\<lparr>num_urls_from_api := Some 3,
                                  skipped_double_granules := [url_jan, url_feb]\<rparr>)"
  by (simp add: example_run)

lemma example_parsed:
  "parsed example_lib url_jan" "parsed example_lib url_feb"
  "parsed example_lib url_feb2" "parsed example_lib url_mar"
  by (simp_all add: parsed_def tokens_jan tokens_feb tokens_feb2 tokens_mar)

lemma example_keys:
  "key_of example_lib url_jan = ''20150821_011002_20150720_011002''"
  "key_of example_lib url_feb = ''20150821_011002_20150720_011002''"
  "key_of example_lib url_feb2 = ''20150821_011002_20150720_011002''"
  "key_of example_lib url_mar = ''20150821_011002_20150720_011002''"
  by (simp_all add: key_of_def tokens_jan tokens_feb tokens_feb2 tokens_mar example_key)

lemma example_procs:
  "procs_of example_lib url_jan = (20200101, 20200101)"
  "procs_of example_lib url_feb = (20200201, 20200201)"
  "procs_of example_lib url_feb2 = (20200201, 20200201)"
  "procs_of example_lib url_mar = (20200301, 20200301)"
  by (simp_all add: procs_of_def proc_dates_def tokens_jan tokens_feb tokens_feb2 tokens_mar)

section \<open>The claims on deduplication\<close>

text \<open>
  C2. Deduplication is idempotent: whenever \<^verbatim>\<open>skip_duplicate_granules\<close> returns a list,
  running it on that list (from any state of the object) returns the same list and leaves
  the duplicate-rejection list empty.
\<close>

theorem skip_duplicate_granules_idempotent:
  assumes "skip_duplicate_granules L st found_urls = Inr (granules, st')"
  shows "skip_duplicate_granules L st2 granules =
           Inr (granules, st2\<lparr>num_urls_from_api := Some (length granules),
                              skipped_double_granules := []\<rparr>)"
proof -
  from assms obtain keep skipped where k: "skip_loop L ([], []) found_urls = Inr (keep, skipped)"
    and g: "granules = concat (map snd keep)"
    by (auto simp: skip_duplicate_granules_def split: sum.splits)
  have "dedup_inv L ([] @ found_urls) (keep, skipped)"
    using skip_loop_inv [OF dedup_inv_init k] .
  from dedup_inv_groups [OF this]
  have "skip_loop L ([], []) (concat (map snd keep)) = Inr ([] @ keep, [])"
    using skip_loop_groups [of "[]" keep L "[]"] by simp
  then show ?thesis using g by (simp add: skip_duplicate_granules_def)
qed

theorem skip_duplicate_granules_idempotent_witness:
  "skip_duplicate_granules example_lib empty_cube [url_jan, url_feb] =
     Inr ([url_feb], empty_cube\<lparr>num_urls_from_api := Some 2, skipped_double_granules := [url_jan]\<rparr>) \<and>
   skip_duplicate_granules example_lib empty_cube [url_feb] =
     Inr ([url_feb], empty_cube\<lparr>num_urls_from_api := Some 1, skipped_double_granules := []\<rparr>)"
  using run_jan_feb skip_duplicate_granules_idempotent [OF run_jan_feb, of empty_cube]
  by simp

text \<open>
  C3, as stated, fails: an incoming identifier whose two processing dates equal those of a
  kept identifier does not replace it, although both dates of the kept one are at most the
  incoming ones; both are kept and nothing is recorded as a duplicate.
\<close>

theorem skip_step_replaces_counterexample:
  "replaces (procs_of example_lib url_feb2) (procs_of example_lib url_feb) \<and>
   skip_step example_lib ([(''20150821_011002_20150720_011002'', [url_feb])], []) url_feb2 =
     Inr ([(''20150821_011002_20150720_011002'', [url_feb, url_feb2])], [])"
  by (simp add: example_procs replaces_def skip_step_def tokens_feb tokens_feb2 example_key
      proc_dates_def)

text \<open>
  C3, amended. When a kept identifier of the group has both processing dates equal to the
  incoming ones, nothing is replaced and the incoming identifier is kept next to the kept
  ones. Otherwise the incoming identifier replaces exactly the kept identifiers of its
  group that satisfy \<open>replaces\<close>: if there is one, those are appended to the duplicate
  rejections and the group becomes the remaining identifiers followed by the incoming
  one; if there is none, the group is unchanged and the incoming identifier is itself
  recorded as a duplicate.
\<close>

theorem skip_step_replaces:
  assumes "get_tokens_from_filename L each_url = Inr t"
    and "map_of keep (granule_id L t) = Some found"
    and "\<forall>f\<in>set found. parsed L f"
  shows "skip_step L (keep, skipped) each_url =
     (if \<exists>f\<in>set found. procs_of L f = proc_dates t
      then Inr (AList.update (granule_id L t) (found @ [each_url]) keep, skipped)
      else if \<exists>f\<in>set found. replaces (proc_dates t) (procs_of L f)
      then Inr (AList.update (granule_id L t)
                  (filter (\<lambda>f. \<not> replaces (proc_dates t) (procs_of L f)) found @ [each_url]) keep,
                skipped @ filter (\<lambda>f. replaces (proc_dates t) (procs_of L f)) found)
      else Inr (keep, skipped @ [each_url]))"
proof -
  have pf: "\<forall>found'. map_of keep (granule_id L t) = Some found' \<longrightarrow> (\<forall>f\<in>set found'. parsed L f)"
    using assms(2,3) by simp
  have flt: "filter (\<lambda>each. each \<notin> set (filter (\<lambda>f. replaces (proc_dates t) (procs_of L f)) found)) found
           = filter (\<lambda>f. \<not> replaces (proc_dates t) (procs_of L f)) found"
    by (rule filter_cong) auto
  have ne: "(filter (\<lambda>f. replaces (proc_dates t) (procs_of L f)) found \<noteq> []) =
            (\<exists>f\<in>set found. replaces (proc_dates t) (procs_of L f))"
    by (auto simp: filter_empty_conv)
  show ?thesis
    unfolding skip_step_cases [OF assms(1) pf, where skipped = skipped]
    using assms(2) flt ne by simp
qed

theorem skip_step_replaces_witness:
  "skip_step example_lib ([(''20150821_011002_20150720_011002'', [url_jan])], []) url_feb =
     Inr ([(''20150821_011002_20150720_011002'', [url_feb])], [url_jan]) \<and>
   skip_step example_lib ([(''20150821_011002_20150720_011002'', [url_feb])], []) url_feb2 =
     Inr ([(''20150821_011002_20150720_011002'', [url_feb, url_feb2])], []) \<and>
   skip_step example_lib ([(''20150821_011002_20150720_011002'', [url_feb])], []) url_jan =
     Inr ([(''20150821_011002_20150720_011002'', [url_feb])], [url_jan])"
  using skip_step_replaces [OF tokens_feb, of "[(''20150821_011002_20150720_011002'', [url_jan])]"
      "[url_jan]" "[]"]
    skip_step_replaces [OF tokens_feb2, of "[(''20150821_011002_20150720_011002'', [url_feb])]"
      "[url_feb]" "[]"]
    skip_step_replaces [OF tokens_jan, of "[(''20150821_011002_20150720_011002'', [url_feb])]"
      "[url_feb]" "[]"]
  by (simp add: example_key example_parsed example_procs proc_dates_def replaces_def)

text \<open>
  C4, as stated, fails: with a third identifier of the same key that is newer still, the
  dominating one of the two is not retained either.
\<close>

theorem dominated_discarded_counterexample:
  "key_of example_lib url_feb = key_of example_lib url_jan \<and>
   fst (procs_of example_lib url_feb) \<ge> fst (procs_of example_lib url_jan) \<and>
   snd (procs_of example_lib url_feb) \<ge> snd (procs_of example_lib url_jan) \<and>
   procs_of example_lib url_feb \<noteq> procs_of example_lib url_jan \<and>
   skip_duplicate_granules example_lib empty_cube [url_jan, url_feb, url_mar] =
     Inr ([url_mar], empty_cube\<lparr>num_urls_from_api := Some 3,
                                  skipped_double_granules := [url_jan, url_feb]\<rparr>) \<and>
   url_feb \<notin> set [url_mar]"
  using run_jan_feb_mar by (simp add: example_keys example_procs url_neq)

text \<open>
  C4, amended. For identifiers A and B of the input with equal key, where both processing
  dates of A are at least those of B and the pairs differ: B is not in the output and is
  in the duplicate-rejection list, wherever the two stand in the input; A is in the output
  provided no identifier of the input with the same key has newer processing dates than A.
\<close>

theorem dominated_discarded:
  assumes "skip_duplicate_granules L st found_urls = Inr (granules, st')"
    and "a \<in> set found_urls" and "b \<in> set found_urls"
    and "key_of L a = key_of L b"
    and "fst (procs_of L a) \<ge> fst (procs_of L b)"
    and "snd (procs_of L a) \<ge> snd (procs_of L b)"
    and "procs_of L a \<noteq> procs_of L b"
  shows "b \<notin> set granules \<and> b \<in> set (skipped_double_granules st') \<and>
         (newest L found_urls a \<longrightarrow> a \<in> set granules)"
proof -
  have "newer (procs_of L a) (procs_of L b)"
    using assms(5,6,7) by (auto simp: newer_def prod_eq_iff)
  then have nb: "\<not> newest L found_urls b"
    using assms(2,4) by (auto simp: newest_def)
  show ?thesis
    using nb assms(2,3) kept_iff_newest [OF assms(1)] skipped_iff_not_newest [OF assms(1)]
    by blast
qed

theorem dominated_discarded_witness:
  "skip_duplicate_granules example_lib empty_cube [url_feb, url_jan] =
     Inr ([url_feb], empty_cube\<lparr>num_urls_from_api := Some 2, skipped_double_granules := [url_jan]\<rparr>) \<and>
   url_jan \<notin> set [url_feb] \<and>
   url_jan \<in> set (skipped_double_granules
                   (empty_cube\<lparr>num_urls_from_api := Some 2, skipped_double_granules := [url_jan]\<rparr>)) \<and>
   url_feb \<in> set [url_feb]"
proof -
  have n: "newest example_lib [url_feb, url_jan] url_feb"
    by (simp add: newest_def newer_def example_procs)
  show ?thesis
    using run_feb_jan dominated_discarded [OF run_feb_jan, of url_feb url_jan] n
    by (simp add: example_keys example_procs)
qed

text \<open>
  C5, as stated, fails: two identifiers with equal key and equal processing dates are both
  discarded when the input holds a newer identifier of the same key.
\<close>

theorem identical_dates_counterexample:
  "key_of example_lib url_feb = key_of example_lib url_feb2 \<and>
   procs_of example_lib url_feb = procs_of example_lib url_feb2 \<and>
   skip_duplicate_granules example_lib empty_cube [url_feb, url_feb2, url_mar] =
     Inr ([url_mar], empty_cube\<lparr>num_urls_from_api := Some 3,
                                  skipped_double_granules := [url_feb, url_feb2]\<rparr>) \<and>
   url_feb \<notin> set [url_mar] \<and> url_feb2 \<notin> set [url_mar]"
  using run_feb_feb2_mar by (simp add: example_keys example_procs url_neq)

text \<open>
  C5, amended. Two identifiers of the input with equal key and equal processing dates on
  both images share their fate: both are in the output or neither is; and both are in the
  output when no identifier of the input with that key has newer processing dates.
\<close>

theorem identical_dates_both_retained:
  assumes "skip_duplicate_granules L st found_urls = Inr (granules, st')"
    and "a \<in> set found_urls" and "b \<in> set found_urls"
    and "key_of L a = key_of L b"
    and "procs_of L a = procs_of L b"
  shows "(a \<in> set granules \<longleftrightarrow> b \<in> set granules) \<and>
         (newest L found_urls a \<longrightarrow> a \<in> set granules \<and> b \<in> set granules)"
proof -
  have "newest L found_urls a = newest L found_urls b"
    using assms(4,5) by (simp add: newest_def)
  then show ?thesis
    using assms(2,3) kept_iff_newest [OF assms(1)] by blast
qed

theorem identical_dates_both_retained_witness:
  "skip_duplicate_granules example_lib empty_cube [url_feb, url_feb2] =
     Inr ([url_feb, url_feb2],
          empty_cube\<lparr>num_urls_from_api := Some 2, skipped_double_granules := []\<rparr>) \<and>
   url_feb \<in> set [url_feb, url_feb2] \<and> url_feb2 \<in> set [url_feb, url_feb2]"
proof -
  have n: "newest example_lib [url_feb, url_feb2] url_feb"
    by (simp add: newest_def newer_def example_procs)
  show ?thesis
    using run_feb_feb2 identical_dates_both_retained [OF run_feb_feb2, of url_feb url_feb2] n
    by (simp add: example_keys example_procs)
qed


section \<open>The assembler: the record axis\<close>

lemma bind_err_Inr:
  assumes "bind_err m f = Inr y"
  obtains x where "m = Inr x" and "f x = Inr y"
  using assms by (cases m) (auto simp: bind_err_def)

lemma mapM_length: "mapM f xs = Inr ys \<Longrightarrow> length ys = length xs"
  by (induction xs arbitrary: ys) (auto split: sum.splits)

lemma set_update_cases:
  "p \<in> set (AList.update k v al) \<Longrightarrow> p = (k, v) \<or> p \<in> set al"
  by (induction al) (auto split: if_splits)

lemma set_layer_ok:
  assumes "work_ok n w" and "record_len var = None \<or> record_len var = Some n"
  shows "work_ok n (set_layer name var w)"
  using assms set_update_cases [of _ name var "d_vars (w_layers w)"]
  by (fastforce simp: work_ok_def layers_ok_def set_layer_def)

lemma append_new_v_vars_ok: "work_ok n w \<Longrightarrow> work_ok n (append_new_v_vars names w)"
  by (simp add: work_ok_def append_new_v_vars_def)

lemma xr_concat_len: "xr_concat arrays coord = Inr var \<Longrightarrow> record_len var = Some (length coord)"
  by (auto simp: xr_concat_def split: if_splits)

lemma record_array_len: "record_array data coord = Inr var \<Longrightarrow> record_len var = Some (length coord)"
  by (auto simp: record_array_def split: if_splits)

lemma attr_records_len:
  "attr_records L st w var_name attr_name mv td = Inr var \<Longrightarrow> record_len var = Some (length (dates st))"
  by (auto simp: attr_records_def elim!: bind_err_Inr dest: record_array_len)

lemma preservesI: "(\<And>w w'. work_ok n w \<Longrightarrow> stage w = Inr w' \<Longrightarrow> work_ok n w') \<Longrightarrow> preserves n stage"
  by (simp add: preserves_def)

lemma preservesD: "preserves n stage \<Longrightarrow> work_ok n w \<Longrightarrow> stage w = Inr w' \<Longrightarrow> work_ok n w'"
  by (auto simp: preserves_def)

lemma foldM_preserves:
  assumes "\<And>x. x \<in> set xs \<Longrightarrow> preserves n (f x)"
  shows "preserves n (foldM f xs)"
  using assms
proof (induction xs)
  case Nil
  then show ?case by (simp add: preserves_def)
next
  case (Cons x xs)
  have px: "preserves n (f x)" and pxs: "preserves n (foldM f xs)" using Cons by auto
  show ?case
  proof (rule preservesI)
    fix w w' assume ok: "work_ok n w" and r: "foldM f (x # xs) w = Inr w'"
    from r obtain w1 where 1: "f x w = Inr w1" and 2: "foldM f xs w1 = Inr w'"
      by (auto split: sum.splits)
    show "work_ok n w'" using preservesD [OF pxs preservesD [OF px ok 1] 2] .
  qed
qed

lemma run_stages_preserves:
  assumes "\<And>s. s \<in> set ss \<Longrightarrow> preserves n s"
  shows "preserves n (run_stages ss)"
  unfolding run_stages_def using assms by (rule foldM_preserves)

lemma pure_stage_preserves: "preserves n (pure_stage (append_new_v_vars names))"
  by (auto simp: preserves_def pure_stage_def append_new_v_vars_ok)

lemma concat_stage_preserves: "preserves (length (dates st)) (concat_stage st name pick)"
  by (rule preservesI)
     (auto simp: concat_stage_def elim!: bind_err_Inr intro!: set_layer_ok dest: xr_concat_len)

lemma drop_stage_preserves: "preserves n (drop_stage d)"
  by (rule preservesI) (auto simp: drop_stage_def work_ok_def elim!: bind_err_Inr)

lemma projection_stage_preserves: "preserves n (projection_stage b)"
  by (rule preservesI)
     (auto simp: projection_stage_def elim!: bind_err_Inr intro!: set_layer_ok split: if_splits)

lemma grid_mapping_stage_preserves: "preserves n grid_mapping_stage"
  by (rule preservesI)
     (auto simp: grid_mapping_stage_def elim!: bind_err_Inr split: if_splits)

lemma map_scale_corrected_stage_preserves:
  "preserves (length (dates st)) (map_scale_corrected_stage L st)"
  by (rule preservesI)
     (auto simp: map_scale_corrected_stage_def elim!: bind_err_Inr intro!: set_layer_ok
           dest: attr_records_len split: if_splits)

lemma error_variable_preserves:
  "preserves (length (dates st)) (error_variable L st var_name each_prefix)"
  by (rule preservesI)
     (auto simp: error_variable_def Let_def elim!: bind_err_Inr intro!: set_layer_ok
           dest: record_array_len split: if_splits)

lemma promote_count_preserves:
  "preserves (length (dates st)) (promote_count L st var_name attr_name)"
  by (rule preservesI)
     (auto simp: promote_count_def elim!: bind_err_Inr intro!: set_layer_ok
           dest: attr_records_len split: if_splits)

lemma promote_flag_preserves:
  "preserves (length (dates st)) (promote_flag L st var_name)"
  by (rule preservesI)
     (auto simp: promote_flag_def elim!: bind_err_Inr intro!: set_layer_ok
           dest: attr_records_len split: if_splits)

lemma shift_variable_preserves:
  "preserves (length (dates st)) (shift_variable L st var_name shift)"
  by (rule preservesI)
     (auto simp: shift_variable_def elim!: bind_err_Inr intro!: set_layer_ok
           dest: attr_records_len)

lemma v_attributes_stage_preserves:
  "preserves (length (dates st)) (v_attributes_stage L st var_name)"
proof (rule preservesI)
  fix w w' assume ok: "work_ok (length (dates st)) w"
    and r: "v_attributes_stage L st var_name w = Inr w'"
  from r obtain w1 where
    1: "run_stages
          [foldM (error_variable L st var_name) v_comp_attrs,
           promote_count L st var_name DataVars_STABLE_COUNT,
           promote_count L st var_name DataVars_STABLE_COUNT_SLOW,
           promote_count L st var_name DataVars_STABLE_COUNT_MASK,
           promote_flag L st var_name,
           shift_variable L st var_name DataVars_STABLE_SHIFT,
           shift_variable L st var_name DataVars_STABLE_SHIFT_SLOW,
           shift_variable L st var_name DataVars_STABLE_SHIFT_MASK] w = Inr w1"
    and 2: "w' = append_new_v_vars (return_vars var_name) w1"
    by (auto simp: v_attributes_stage_def process_v_attributes_def elim!: bind_err_Inr)
  have "preserves (length (dates st))
          (run_stages
          [foldM (error_variable L st var_name) v_comp_attrs,
           promote_count L st var_name DataVars_STABLE_COUNT,
           promote_count L st var_name DataVars_STABLE_COUNT_SLOW,
           promote_count L st var_name DataVars_STABLE_COUNT_MASK,
           promote_flag L st var_name,
           shift_variable L st var_name DataVars_STABLE_SHIFT,
           shift_variable L st var_name DataVars_STABLE_SHIFT_SLOW,
           shift_variable L st var_name DataVars_STABLE_SHIFT_MASK])"
    by (rule run_stages_preserves)
       (auto intro: foldM_preserves error_variable_preserves promote_count_preserves
          promote_flag_preserves shift_variable_preserves)
  from preservesD [OF this ok 1] show "work_ok (length (dates st)) w'"
    using 2 by (simp add: append_new_v_vars_ok)
qed

lemma img_pair_info_variable_preserves:
  "preserves (length (dates st)) (img_pair_info_variable L st each)"
  by (rule preservesI)
     (auto simp: img_pair_info_variable_def elim!: bind_err_Inr intro!: set_layer_ok
           dest: attr_records_len)

lemma init_layers_ok:
  "init_layers cfg st = Inr lay \<Longrightarrow>
     layers_ok (length (dates st)) lay \<and> length (urls st) = length (dates st)"
  by (auto simp: init_layers_def layers_ok_def split: if_splits)

lemma run_stages_Cons:
  "run_stages (s # ss) w = Inr w' \<longleftrightarrow> (\<exists>w1. s w = Inr w1 \<and> run_stages ss w1 = Inr w')"
  by (auto simp: run_stages_def split: sum.splits)

lemma projection_stage_ds: "projection_stage b w = Inr w' \<Longrightarrow> w_ds w' = w_ds w"
  by (auto simp: projection_stage_def set_layer_def elim!: bind_err_Inr split: if_splits)

lemmas stage_preserves =
  pure_stage_preserves concat_stage_preserves drop_stage_preserves projection_stage_preserves
  grid_mapping_stage_preserves map_scale_corrected_stage_preserves v_attributes_stage_preserves

lemma stages_preserve:
  "s \<in> set (stages L cfg st is_first_write) \<Longrightarrow> preserves (length (dates st)) s"
  unfolding stages_def
  by (auto intro: stage_preserves foldM_preserves img_pair_info_variable_preserves)

lemma concat_v_length:
  assumes "concat_stage st name pick w = Inr w'"
  shows "length (w_ds w) = length (dates st)"
  using assms
  by (auto simp: concat_stage_def xr_concat_def elim!: bind_err_Inr dest: mapM_length
           split: if_splits)

text \<open>
  What \<^verbatim>\<open>combine_layers\<close> has built when it comes to line 1491: every variable of
  \<^verbatim>\<open>self.layers\<close> that is dimensioned by the record axis has one position per record of
  the batch, and the three sequences of the accumulator have that length.
\<close>

lemma assemble_record_axis:
  assumes "assemble L cfg st is_first_write = Inr w"
  shows "layers_ok (length (ds st)) (w_layers w) \<and>
         length (urls st) = length (ds st) \<and> length (dates st) = length (ds st)"
proof -
  from assms obtain lay0 where
    i: "init_layers cfg st = Inr lay0"
    and r: "run_stages (stages L cfg st is_first_write)
              \<lparr>w_ds = ds st, w_layers = lay0, w_new_v_vars = []\<rparr> = Inr w"
    unfolding assemble_def by (rule bind_err_Inr)
  have ok0: "work_ok (length (dates st)) \<lparr>w_ds = ds st, w_layers = lay0, w_new_v_vars = []\<rparr>"
    using init_layers_ok [OF i] by (simp add: work_ok_def)
  have "preserves (length (dates st)) (run_stages (stages L cfg st is_first_write))"
    by (rule run_stages_preserves) (rule stages_preserve)
  from preservesD [OF this ok0 r] have okw: "layers_ok (length (dates st)) (w_layers w)"
    by (simp add: work_ok_def)
  from r obtain w1 w2 where
    p: "projection_stage is_first_write \<lparr>w_ds = ds st, w_layers = lay0, w_new_v_vars = []\<rparr> = Inr w1"
    and v: "concat_stage st DataVars_V (\<lambda>g. ds_var g DataVars_V) w1 = Inr w2"
    unfolding stages_def run_stages_Cons by blast
  have len: "length (ds st) = length (dates st)"
    using concat_v_length [OF v] projection_stage_ds [OF p] by simp
  show ?thesis using okw len init_layers_ok [OF i] by simp
qed

text \<open>\<^verbatim>\<open>combine_layers\<close> returns on no accumulator that holds a record.\<close>

lemma combine_layers_raises:
  "ds st \<noteq> [] \<Longrightarrow> \<exists>e. combine_layers L cfg st cube_store is_first_write = Inl e"
  by (cases "assemble L cfg st is_first_write") (simp_all add: combine_layers_def bind_err_def)

lemma combine_layers_returns:
  assumes "combine_layers L cfg st cube_store is_first_write = Inr (st', cube_store')"
  shows "ds st = [] \<and> st' = st\<lparr>layers := LayersEmptyDict\<rparr> \<and> cube_store' = cube_store"
proof (cases "ds st = []")
  case True
  with assms show ?thesis by (auto simp: combine_layers_def)
next
  case False
  from combine_layers_raises [OF False, of L cfg cube_store is_first_write] assms
  show ?thesis by simp
qed

section \<open>The example batches\<close>

lemma runs_Nil: "runs [] gs"
  by (simp add: runs_def run_stages_def)

lemma runs_keep:
  assumes "\<And>w. w_ds w = gs \<Longrightarrow> \<exists>w'. s w = Inr w' \<and> w_ds w' = gs" and "runs ss gs"
  shows "runs (s # ss) gs"
  unfolding runs_def run_stages_Cons using assms by (metis runs_def)

lemma mapM_drop_vars:
  "\<forall>g\<in>set gs. has_var n g \<Longrightarrow> mapM (drop_vars n) gs = Inr (map (without n) gs)"
  by (induction gs) (auto simp: drop_vars_def without_def)

lemma mapM_drop_if_present: "mapM (drop_if_present n) gs = Inr (map (without n) gs)"
proof (induction gs)
  case Nil
  then show ?case by simp
next
  case (Cons g gs)
  have "\<not> has_var n g \<Longrightarrow> filter (\<lambda>p. fst p \<noteq> n) (g_vars g) = g_vars g"
    by (auto simp: has_var_def map_of_eq_None_iff filter_id_conv image_iff)
  then have "drop_if_present n g = Inr (without n g)"
    by (auto simp: drop_if_present_def drop_vars_def without_def)
  then show ?case using Cons by simp
qed

lemma runs_drop_vars:
  assumes "\<forall>g\<in>set gs. has_var n g" and "runs ss (map (without n) gs)"
  shows "runs (drop_stage (drop_vars n) # ss) gs"
  unfolding runs_def run_stages_Cons
  using assms by (auto simp: drop_stage_def bind_err_def mapM_drop_vars runs_def)

lemma runs_drop_if_present:
  assumes "runs ss (map (without n) gs)"
  shows "runs (drop_stage (drop_if_present n) # ss) gs"
  unfolding runs_def run_stages_Cons
  using assms by (auto simp: drop_stage_def bind_err_def mapM_drop_if_present runs_def)

lemma runs_pure: "runs ss gs \<Longrightarrow> runs (pure_stage (append_new_v_vars names) # ss) gs"
  by (rule runs_keep) (auto simp: pure_stage_def append_new_v_vars_def)

lemma runs_concat:
  assumes "\<exists>arrays. mapM pick gs = Inr arrays" and "length gs = length (dates st)" and "runs ss gs"
  shows "runs (concat_stage st name pick # ss) gs"
proof (rule runs_keep [OF _ assms(3)])
  fix w :: work assume w: "w_ds w = gs"
  from assms(1) obtain arrays where a: "mapM pick gs = Inr arrays" by blast
  have "length arrays = length (dates st)" using mapM_length [OF a] assms(2) by simp
  then show "\<exists>w'. concat_stage st name pick w = Inr w' \<and> w_ds w' = gs"
    using a w by (simp add: concat_stage_def bind_err_def xr_concat_def set_layer_def)
qed

text \<open>With a default value, \<^verbatim>\<open>get_data_var_attr\<close> always returns.\<close>

lemma get_data_var_attr_default:
  "\<exists>v. get_data_var_attr L g u var_name attr_name (Some m) False = Inr v"
  by (auto simp: get_data_var_attr_def has_var_attr_def var_attr_def ds_var_def attr_item_def
        bind_err_def split: option.splits)

lemma get_data_var_attr_present:
  "has_var_attr var_name attr_name g \<Longrightarrow>
   \<exists>v. get_data_var_attr L g u var_name attr_name mv False = Inr v"
  by (auto simp: get_data_var_attr_def has_var_attr_def var_attr_def ds_var_def attr_item_def
        bind_err_def split: option.splits)

lemma mapM_total:
  "\<forall>x\<in>set xs. \<exists>y. f x = Inr y \<Longrightarrow> \<exists>ys. mapM f xs = Inr ys"
  by (induction xs) (auto split: sum.splits)

lemma attr_records_default:
  assumes "length (w_ds w) = length (dates st)" and "length (urls st) = length (dates st)"
  shows "\<exists>var. attr_records L st w var_name attr_name (Some m) False = Inr var"
proof -
  have "\<forall>p\<in>set (zip (w_ds w) (urls st)).
           \<exists>v. get_data_var_attr L (fst p) (snd p) var_name attr_name (Some m) False = Inr v"
    by (intro ballI get_data_var_attr_default)
  from mapM_total [OF this]
  obtain data where d: "mapM (\<lambda>p. get_data_var_attr L (fst p) (snd p) var_name attr_name (Some m) False)
                          (zip (w_ds w) (urls st)) = Inr data" ..
  have "length data = length (dates st)" using mapM_length [OF d] assms by simp
  then show ?thesis using d by (simp add: attr_records_def bind_err_def record_array_def)
qed

lemma attr_records_present:
  assumes "length (w_ds w) = length (dates st)" and "length (urls st) = length (dates st)"
    and "\<forall>g\<in>set (w_ds w). has_var_attr var_name attr_name g"
  shows "\<exists>var. attr_records L st w var_name attr_name mv False = Inr var"
proof -
  have "\<forall>p\<in>set (zip (w_ds w) (urls st)).
           \<exists>v. get_data_var_attr L (fst p) (snd p) var_name attr_name mv False = Inr v"
  proof
    fix p assume "p \<in> set (zip (w_ds w) (urls st))"
    then have "fst p \<in> set (w_ds w)" using set_zip_leftD [of "fst p" "snd p"] by simp
    then have "has_var_attr var_name attr_name (fst p)" using assms(3) by blast
    then show "\<exists>v. get_data_var_attr L (fst p) (snd p) var_name attr_name mv False = Inr v"
      by (rule get_data_var_attr_present)
  qed
  from mapM_total [OF this]
  obtain data where d: "mapM (\<lambda>p. get_data_var_attr L (fst p) (snd p) var_name attr_name mv False)
                          (zip (w_ds w) (urls st)) = Inr data" ..
  have "length data = length (dates st)" using mapM_length [OF d] assms by simp
  then show ?thesis using d by (simp add: attr_records_def bind_err_def record_array_def)
qed

lemma error_variable_succeeds:
  assumes "length (w_ds w) = length (dates st)" and "length (urls st) = length (dates st)"
    and "w_ds w \<noteq> []"
    and "var_name \<in> set velocity_components" and "each_prefix \<in> set v_comp_attrs"
    and "var_name \<in> set [DataVars_VX, DataVars_VY] \<longrightarrow> (\<forall>g\<in>set (w_ds w). has_var var_name g)"
  shows "\<exists>w'. error_variable L st var_name each_prefix w = Inr w' \<and> w_ds w' = w_ds w"
proof -
  let ?f = "\<lambda>p. bind_err (ds_item (fst p) var_name)
                 (\<lambda>a. if map_of (da_attrs a) (var_name @ ''_'' @ each_prefix) \<noteq> None
                       then get_data_var_attr L (fst p) (snd p) var_name (var_name @ ''_'' @ each_prefix)
                              (Some DataVars_MISSING_VALUE) False
                       else get_data_var_attr L (fst p) (snd p) var_name DataVars_STABLE_RMSE
                              (Some DataVars_MISSING_VALUE) False)"
  let ?g = "\<lambda>p. get_data_var_attr L (fst p) (snd p) var_name (var_name @ ''_'' @ each_prefix)
                   (Some DataVars_MISSING_VALUE) False"
  let ?m = "if var_name \<in> set [DataVars_VX, DataVars_VY]
            then mapM ?f (zip (w_ds w) (urls st)) else mapM ?g (zip (w_ds w) (urls st))"
  have "\<exists>data. ?m = Inr data"
  proof (cases "var_name \<in> set [DataVars_VX, DataVars_VY]")
    case True
    then have hv: "\<forall>g\<in>set (w_ds w). has_var var_name g" using assms(6) by blast
    have "\<forall>p\<in>set (zip (w_ds w) (urls st)). \<exists>v. ?f p = Inr v"
    proof
      fix p assume "p \<in> set (zip (w_ds w) (urls st))"
      then have "fst p \<in> set (w_ds w)" using set_zip_leftD [of "fst p" "snd p"] by simp
      then have "has_var var_name (fst p)" using hv by blast
      then obtain a where "ds_item (fst p) var_name = Inr a"
        by (auto simp: has_var_def ds_item_def)
      then show "\<exists>v. ?f p = Inr v"
        using get_data_var_attr_default by (simp add: bind_err_def)
    qed
    from mapM_total [OF this] show ?thesis using True by simp
  next
    case False
    have "\<forall>p\<in>set (zip (w_ds w) (urls st)). \<exists>v. ?g p = Inr v"
      by (intro ballI get_data_var_attr_default)
    from mapM_total [OF this] show ?thesis using False by simp
  qed
  then obtain data where d: "?m = Inr data" by blast
  have "length data = length (dates st)"
    using d assms(1,2) by (auto dest: mapM_length split: if_splits)
  moreover have "each_prefix \<in> set description_keys \<or>
                 var_name @ ''_'' @ each_prefix \<in> set description_keys"
  proof -
    have 1: "each_prefix = ''error'' \<or> each_prefix \<in> set description_keys"
      using assms(5) by (auto simp: v_comp_attrs_def description_keys_def)
    have 2: "var_name @ ''_'' @ ''error'' \<in> set description_keys"
      using assms(4) by (auto simp: velocity_components_def description_keys_def)
    show ?thesis using 1 2 by blast
  qed
  moreover obtain g0 where "first_ds w = Inr g0"
    using assms(3) by (cases "w_ds w") (auto simp: first_ds_def)
  ultimately show ?thesis
    using d unfolding error_variable_def Let_def
    by (auto simp: bind_err_def record_array_def set_layer_def)
qed

lemma foldM_succeeds:
  assumes "\<And>x w. x \<in> set xs \<Longrightarrow> P w \<Longrightarrow> \<exists>w'. f x w = Inr w' \<and> w_ds w' = w_ds w"
    and "\<And>w w'. P w \<Longrightarrow> w_ds w' = w_ds w \<Longrightarrow> P w'"
    and "P w"
  shows "\<exists>w'. foldM f xs w = Inr w' \<and> w_ds w' = w_ds w"
  using assms
proof (induction xs arbitrary: w)
  case Nil
  then show ?case by simp
next
  case (Cons x xs)
  from Cons.prems(1) [of x w] Cons.prems(3) obtain w1 where
    1: "f x w = Inr w1" "w_ds w1 = w_ds w" by auto
  have p1: "P w1" using Cons.prems(2) [OF Cons.prems(3) 1(2)] .
  have "\<exists>w'. foldM f xs w1 = Inr w' \<and> w_ds w' = w_ds w1"
    by (rule Cons.IH) (use Cons.prems(1,2) p1 in auto)
  then show ?case using 1 by auto
qed

lemma promote_count_succeeds:
  assumes "length (w_ds w) = length (dates st)" and "length (urls st) = length (dates st)"
    and "w_ds w \<noteq> []"
    and "has_var_attr var_name attr_name (hd (w_ds w)) \<longrightarrow>
           (\<forall>g\<in>set (w_ds w). has_var_attr var_name attr_name g)"
  shows "\<exists>w'. promote_count L st var_name attr_name w = Inr w' \<and> w_ds w' = w_ds w"
proof -
  obtain g0 where g0: "first_ds w = Inr g0" "g0 = hd (w_ds w)"
    using assms(3) by (cases "w_ds w") (auto simp: first_ds_def)
  show ?thesis
  proof (cases "\<not> in_layers attr_name w \<and> has_var_attr var_name attr_name g0")
    case True
    then have "\<forall>g\<in>set (w_ds w). has_var_attr var_name attr_name g" using assms(4) g0 by simp
    from attr_records_present [OF assms(1,2) this]
    obtain var where "attr_records L st w var_name attr_name None False = Inr var" by blast
    then show ?thesis using True g0 by (simp add: promote_count_def bind_err_def set_layer_def)
  next
    case False
    then show ?thesis using g0 by (auto simp: promote_count_def bind_err_def)
  qed
qed

lemma promote_flag_succeeds:
  assumes "length (w_ds w) = length (dates st)" and "length (urls st) = length (dates st)"
    and "w_ds w \<noteq> []"
  shows "\<exists>w'. promote_flag L st var_name w = Inr w' \<and> w_ds w' = w_ds w"
proof -
  obtain g0 where g0: "first_ds w = Inr g0"
    using assms(3) by (cases "w_ds w") (auto simp: first_ds_def)
  obtain var where "attr_records L st w var_name DataVars_FLAG_STABLE_SHIFT (Some (ANum 0)) False = Inr var"
    using attr_records_default [OF assms(1,2)] by blast
  then show ?thesis using g0 by (auto simp: promote_flag_def bind_err_def set_layer_def)
qed

lemma shift_variable_succeeds:
  assumes "length (w_ds w) = length (dates st)" and "length (urls st) = length (dates st)"
  shows "\<exists>w'. shift_variable L st var_name shift w = Inr w' \<and> w_ds w' = w_ds w"
proof -
  obtain var where "attr_records L st w var_name shift (Some DataVars_MISSING_VALUE) False = Inr var"
    using attr_records_default [OF assms(1,2)] by blast
  then show ?thesis by (auto simp: shift_variable_def bind_err_def set_layer_def)
qed

lemma v_attributes_stage_succeeds:
  assumes w: "w_ds w = gs"
    and len: "length gs = length (dates st)" "length (urls st) = length (dates st)"
    and ne: "gs \<noteq> []"
    and vn: "var_name \<in> set velocity_components"
    and hv: "var_name \<in> set [DataVars_VX, DataVars_VY] \<longrightarrow> (\<forall>g\<in>set gs. has_var var_name g)"
    and cc: "counts_consistent var_name gs"
  shows "\<exists>w'. v_attributes_stage L st var_name w = Inr w' \<and> w_ds w' = gs"
proof -
  have e: "\<exists>w1. foldM (error_variable L st var_name) v_comp_attrs w = Inr w1 \<and> w_ds w1 = w_ds w"
    by (rule foldM_succeeds [where P = "\<lambda>w. w_ds w = gs"])
       (use w len ne vn hv in \<open>auto intro!: error_variable_succeeds\<close>)
  then obtain w1 where w1: "foldM (error_variable L st var_name) v_comp_attrs w = Inr w1" "w_ds w1 = gs"
    using w by auto
  obtain w2 where w2: "promote_count L st var_name DataVars_STABLE_COUNT w1 = Inr w2" "w_ds w2 = gs"
    using promote_count_succeeds [of w1 st var_name DataVars_STABLE_COUNT L] w1 len ne cc
    by (auto simp: counts_consistent_def)
  obtain w3 where w3: "promote_count L st var_name DataVars_STABLE_COUNT_SLOW w2 = Inr w3" "w_ds w3 = gs"
    using promote_count_succeeds [of w2 st var_name DataVars_STABLE_COUNT_SLOW L] w2 len ne cc
    by (auto simp: counts_consistent_def)
  obtain w4 where w4: "promote_count L st var_name DataVars_STABLE_COUNT_MASK w3 = Inr w4" "w_ds w4 = gs"
    using promote_count_succeeds [of w3 st var_name DataVars_STABLE_COUNT_MASK L] w3 len ne cc
    by (auto simp: counts_consistent_def)
  obtain w5 where w5: "promote_flag L st var_name w4 = Inr w5" "w_ds w5 = gs"
    using promote_flag_succeeds [of w4 st L var_name] w4 len ne by auto
  obtain w6 where w6: "shift_variable L st var_name DataVars_STABLE_SHIFT w5 = Inr w6" "w_ds w6 = gs"
    using shift_variable_succeeds [of w5 st L var_name DataVars_STABLE_SHIFT] w5 len by auto
  obtain w7 where w7: "shift_variable L st var_name DataVars_STABLE_SHIFT_SLOW w6 = Inr w7" "w_ds w7 = gs"
    using shift_variable_succeeds [of w6 st L var_name DataVars_STABLE_SHIFT_SLOW] w6 len by auto
  obtain w8 where w8: "shift_variable L st var_name DataVars_STABLE_SHIFT_MASK w7 = Inr w8" "w_ds w8 = gs"
    using shift_variable_succeeds [of w7 st L var_name DataVars_STABLE_SHIFT_MASK] w7 len by auto
  show ?thesis
    using w1 w2 w3 w4 w5 w6 w7 w8
    by (simp add: v_attributes_stage_def process_v_attributes_def run_stages_def bind_err_def
          append_new_v_vars_def)
qed

lemma runs_v_attributes:
  assumes "length gs = length (dates st)" "length (urls st) = length (dates st)" "gs \<noteq> []"
    and "var_name \<in> set velocity_components"
    and "var_name \<in> set [DataVars_VX, DataVars_VY] \<longrightarrow> (\<forall>g\<in>set gs. has_var var_name g)"
    and "counts_consistent var_name gs"
    and "runs ss gs"
  shows "runs (v_attributes_stage L st var_name # ss) gs"
  by (rule runs_keep [OF _ assms(7)]) (rule v_attributes_stage_succeeds [OF _ assms(1-6)])

lemmas runs_keep_rules =
  runs_keep [where s = "projection_stage b" for b]
  runs_keep [where s = grid_mapping_stage]
  runs_keep [where s = "map_scale_corrected_stage L st" for L st]
  runs_keep [where s = "foldM f xs" for f xs]

lemmas example_stage_simps =
  bind_err_def
  projection_stage_def grid_mapping_stage_def
  map_scale_corrected_stage_def velocity_components_def counts_consistent_def
  pick_chip_size_height_def count_unmasked_def img_pair_info_variable_def ImgPairInfo_ALL_def
  attr_records_def record_array_def get_data_var_def
  get_data_var_attr_def unwrap_single_def to_date_value_def has_var_def has_var_attr_def
  var_attr_def ds_var_def ds_item_def attr_item_def set_layer_def
  first_ds_def without_def
  example_config_def example_granule_def example_var_def
  example_lib_def Let_def

lemma example_stages_run:
  assumes "dates st = [d]" and "urls st = [u]"
  shows "runs (stages example_lib example_config st b) [example_granule 32628]"
  unfolding stages_def
  by (intro runs_Nil runs_pure runs_concat runs_drop_vars runs_drop_if_present runs_v_attributes
        runs_keep_rules)
     (simp_all add: assms example_stage_simps)


lemma example_assemble:
  assumes "ds st = [example_granule 32628]" and "dates st = [d]" and "urls st = [u]"
  shows "\<exists>w. assemble example_lib example_config st b = Inr w"
proof -
  obtain lay0 where i: "init_layers example_config st = Inr lay0"
    using assms by (simp add: init_layers_def)
  let ?w = "\<lparr>w_ds = ds st, w_layers = lay0, w_new_v_vars = []\<rparr>"
  have "w_ds ?w = [example_granule 32628]" using assms by simp
  with example_stages_run [OF assms(2,3), of b]
  obtain w' where "run_stages (stages example_lib example_config st b) ?w = Inr w'"
    unfolding runs_def by blast
  then show ?thesis using i by (simp add: assemble_def bind_err_def)
qed


lemma example_combine:
  assumes "ds st = [example_granule 32628]" and "dates st = [d]" and "urls st = [u]"
  shows "combine_layers example_lib example_config st cube_store b = Inl AttributeError"
proof -
  from example_assemble [OF assms, of b] obtain w where
    "assemble example_lib example_config st b = Inr w" ..
  then show ?thesis using assms(1) by (simp add: combine_layers_def bind_err_def)
qed

lemma tokens_other:
  "get_tokens_from_filename example_lib url_other =
     Inr (20160101, 20200101, ''012003'', 20151201, 20200101, ''012003'')"
  by (simp add: example_simps url_other_def)

lemma url_other_neq: "url_jan \<noteq> url_other" "url_other \<noteq> url_jan"
  by (simp_all add: url_jan_def url_other_def)

lemma example_key_other:
  "granule_id example_lib (20160101, p1, ''012003'', 20151201, p2, ''012003'') =
     ''20160101_012003_20151201_012003''"
  by (simp add: example_simps)

lemma example_request:
  "request_granules example_lib (clear empty_cube) [url_other, url_jan] None =
     Inr ([url_other, url_jan], empty_cube\<lparr>num_urls_from_api := Some 2\<rparr>)"
  by (simp add: request_granules_def skip_duplicate_granules_def skip_step_def tokens_other
        tokens_jan example_key example_key_other proc_dates_def clear_def clear_vars_def
        empty_cube_def)

lemma read_other:
  "read_dataset example_lib example_env example_config url_other =
     Inr (False, 32627, None, url_other, None)"
  by (simp add: read_dataset_def preprocess_dataset_def example_env_def example_granule_def
        example_config_def py_int_def bind_err_def str_int_def str_nat.simps digit_char_def)

lemma read_jan:
  "read_dataset example_lib example_env example_config url_jan =
     Inr (False, 32628, Some 20150805, url_jan, Some (example_granule 32628))"
  by (simp add: read_dataset_def preprocess_dataset_def example_env_def example_granule_def
        example_config_def py_int_def bind_err_def str_int_def str_nat.simps digit_char_def
        url_other_neq)

section \<open>The assembler: the optional variables\<close>

























































section \<open>The example runs\<close>

lemma py_int_supported: "py_int L x \<noteq> Inl UnsupportedProjection"
  by (auto simp: py_int_def split: aval.splits option.splits list.splits)


lemma parallel_loop_done:
  "parallel_loop L E cfg found_urls st cube_store is_first_write calls start 0 =
     Some (calls, Inr (st, cube_store))"
  by (subst parallel_loop.simps) simp

text \<open>With a positive batch size the parallel loop returns or raises.\<close>

lemma parallel_loop_returns:
  assumes "0 < NUM_GRANULES_TO_WRITE cfg"
  shows "\<exists>y. parallel_loop L E cfg found_urls st cube_store is_first_write calls start n = Some y"
proof (induction n arbitrary: st cube_store is_first_write calls start rule: less_induct)
  case (less n)
  show ?case
  proof (cases "0 < n")
    case False
    then show ?thesis by (subst parallel_loop.simps) simp
  next
    case True
    let ?k = "if NUM_GRANULES_TO_WRITE cfg < n then NUM_GRANULES_TO_WRITE cfg else n"
    have "n - ?k < n" using True assms by auto
    then have IH: "\<And>st cube_store is_first_write calls start.
        \<exists>y. parallel_loop L E cfg found_urls st cube_store is_first_write calls start (n - ?k) = Some y"
      using less.IH by blast
    show ?thesis
      apply (subst parallel_loop.simps)
      using True IH by (auto split: sum.splits)
  qed
qed

text \<open>
  The two runs on the identifiers \<open>url_other\<close> (rejected for its projection) and
  \<open>url_jan\<close> (accepted), with batches of one granule. The sequential loop makes one call
  of \<^verbatim>\<open>combine_layers\<close>, with the accepted record and the flag set.
\<close>

lemma example_create_calls:
  "create example_lib example_env example_config empty_cube [url_other, url_jan] None =
     ([(1, 0, True)], Inl AttributeError)"
proof -
  define st1 where "st1 = empty_cube\<lparr>num_urls_from_api := Some 2\<rparr>"
  define stO where "stO = add_layer st1 (False, 32627, None, url_other, None)"
  define stA where "stA = add_layer stO (False, 32628, Some 20150805, url_jan, Some (example_granule 32628))"
  have O: "urls stO = []" by (simp add: stO_def st1_def add_layer_def empty_cube_def)
  have A: "ds stA = [example_granule 32628]" "dates stA = [Some 20150805]" "urls stA = [url_jan]"
    by (simp_all add: stA_def stO_def st1_def add_layer_def empty_cube_def)
  have c: "combine_layers example_lib example_config stA [] True = Inl AttributeError"
    by (rule example_combine [OF A])
  have N: "NUM_GRANULES_TO_WRITE example_config = 1" by (simp add: example_config_def)
  have l2: "create_loop example_lib example_env example_config (stO, [], True) [] [url_jan] =
              ([(1, 0, True)], Inl AttributeError)"
    using c A by (simp add: read_jan N stA_def [symmetric] call_of_def)
  have l1: "create_loop example_lib example_env example_config (st1, [], True) [] [url_other, url_jan] =
              ([(1, 0, True)], Inl AttributeError)"
    using l2 O by (simp add: read_other N stO_def [symmetric])
  show ?thesis
    using l1 by (simp add: create_def example_request st1_def [symmetric])
qed

section \<open>The claims on the normalizer, the assembler and the runs\<close>

text \<open>
  C10. Called with an empty accumulator (\<^verbatim>\<open>len(self.ds) == 0\<close>), \<^verbatim>\<open>combine_layers\<close>
  returns without an error, the store is the one it was given, and of the object only
  \<^verbatim>\<open>self.layers\<close> changes (to the empty dictionary): the accumulator sequences and the
  rejection logs are those of the call.
\<close>

theorem combine_layers_empty_accumulator:
  assumes "ds st = []"
  shows "combine_layers L cfg st cube_store is_first_write =
           Inr (st\<lparr>layers := LayersEmptyDict\<rparr>, cube_store)"
  using assms by (simp add: combine_layers_def)

theorem combine_layers_empty_accumulator_witness:
  "ds empty_cube = [] \<and>
   combine_layers example_lib example_config empty_cube [] True =
     Inr (empty_cube\<lparr>layers := LayersEmptyDict\<rparr>, [])"
  using combine_layers_empty_accumulator [of empty_cube example_lib example_config "[]" True]
  by (simp add: empty_cube_def)

text \<open>
  C9. A call of \<^verbatim>\<open>combine_layers\<close> on an accumulator that holds one accepted record:
  the dataset of the batch is assembled (lines 1157-1488) and the call then ends with
  \<^verbatim>\<open>AttributeError\<close> (line 1492), before \<^verbatim>\<open>to_zarr\<close> and before the call of
  \<^verbatim>\<open>clear_vars\<close> in line 1690. The batch is not written and the call does not empty
  the accumulator.
\<close>

theorem combine_layers_batch_raises:
  "ds example_batch \<noteq> [] \<and>
   (\<exists>w. assemble example_lib example_config example_batch True = Inr w) \<and>
   combine_layers example_lib example_config example_batch [] True = Inl AttributeError"
proof -
  have b: "ds example_batch = [example_granule 32628]" "dates example_batch = [Some 20150805]"
    "urls example_batch = [url_jan]"
    by (simp_all add: example_batch_def)
  show ?thesis
    using b(1) example_assemble [OF b, of True] example_combine [OF b, of "[]" True] by simp
qed


text \<open>
  C8. A run of \<^verbatim>\<open>create_parallel\<close> whose first batch holds no accepted granule: with
  batches of one granule and the identifiers \<open>url_other\<close> (a granule of another
  projection, rejected) and \<open>url_jan\<close> (accepted), \<^verbatim>\<open>combine_layers\<close> is called
  twice. The first call has an empty accumulator and the flag set; it returns without
  writing, and the flag is cleared all the same (lines 539-540, \<^verbatim>\<open>if start == 0\<close>). The
  second call is the first with a record to write; nothing has been written to the store
  and the flag it is passed is \<open>False\<close>.
\<close>

theorem create_parallel_flag_after_empty_batch:
  "create_parallel example_lib example_env example_config empty_cube [url_other, url_jan] None =
     Some ([(0, 0, True), (1, 0, False)], Inl AttributeError)"
proof -
  let ?fu = "[url_other, url_jan]"
  define st1 where "st1 = empty_cube\<lparr>num_urls_from_api := Some 2\<rparr>"
  define stO where "stO = add_layer st1 (False, 32627, None, url_other, None)"
  define stE where "stE = stO\<lparr>layers := LayersEmptyDict\<rparr>"
  define stA where "stA = add_layer stE (False, 32628, Some 20150805, url_jan, Some (example_granule 32628))"
  have O: "ds stO = []" by (simp add: stO_def st1_def add_layer_def empty_cube_def)
  have A: "ds stA = [example_granule 32628]" "dates stA = [Some 20150805]" "urls stA = [url_jan]"
    by (simp_all add: stA_def stE_def stO_def st1_def add_layer_def empty_cube_def)
  have c: "combine_layers example_lib example_config stA [] False = Inl AttributeError"
    by (rule example_combine [OF A])
  have N: "NUM_GRANULES_TO_WRITE example_config = 1" by (simp add: example_config_def)
  have p1: "parallel_loop example_lib example_env example_config ?fu stE [] False [(0, 0, True)]
              (Suc 0) (Suc 0) =
              Some ([(0, 0, True), (1, 0, False)], Inl AttributeError)"
    by (subst parallel_loop.simps) (simp add: N read_jan stA_def [symmetric] c A call_of_def)
  have e: "combine_layers example_lib example_config stO [] True = Inr (stE, [])"
    using O by (simp add: combine_layers_def stE_def)
  have p0: "parallel_loop example_lib example_env example_config ?fu st1 [] True [] 0 (Suc (Suc 0)) =
              Some ([(0, 0, True), (1, 0, False)], Inl AttributeError)"
    by (subst parallel_loop.simps) (simp add: N read_other stO_def [symmetric] e O p1 call_of_def)
  show ?thesis
    using p0 by (simp add: create_parallel_def example_request st1_def [symmetric])
qed

text \<open>
  C6, as stated, fails: a granule whose projection is described by \<^verbatim>\<open>UTM_Projection\<close>,
  one of the three locations, is refused with the fatal error, because it has no variable
  \<^verbatim>\<open>mapping\<close>.
\<close>

theorem utm_projection_counterexample:
  "has_var DataVars_UTM_PROJECTION example_utm_granule \<and>
   preprocess_dataset example_lib example_env example_config example_utm_granule url_jan =
     Inl UnsupportedProjection"
  by (simp add: has_var_def preprocess_dataset_def example_utm_granule_def without_def
        example_granule_def)

text \<open>
  C6, amended. \<^verbatim>\<open>preprocess_dataset\<close> raises the fatal error for an unsupported
  projection exactly when the granule has no variable \<^verbatim>\<open>mapping\<close>, and whenever it
  returns, the projection it returns is \<^verbatim>\<open>int(ds.mapping.spatial_epsg)\<close>.
\<close>

theorem preprocess_dataset_projection:
  "(preprocess_dataset L E cfg g ds_url = Inl UnsupportedProjection \<longleftrightarrow>
      \<not> has_var DataVars_MAPPING g) \<and>
   (preprocess_dataset L E cfg g ds_url = Inr r \<longrightarrow>
      (\<exists>mapping ds_projection.
         map_of (g_vars g) DataVars_MAPPING = Some mapping \<and>
         map_of (da_attrs mapping) ''spatial_epsg'' = Some ds_projection \<and>
         py_int L ds_projection = Inr (fst (snd r))))"
proof (intro conjI impI)
  show "preprocess_dataset L E cfg g ds_url = Inl UnsupportedProjection \<longleftrightarrow>
          \<not> has_var DataVars_MAPPING g"
    using py_int_supported [of L]
    by (auto simp: preprocess_dataset_def has_var_def split: option.splits sum.splits if_splits)
next
  assume "preprocess_dataset L E cfg g ds_url = Inr r"
  then show "\<exists>mapping ds_projection.
         map_of (g_vars g) DataVars_MAPPING = Some mapping \<and>
         map_of (da_attrs mapping) ''spatial_epsg'' = Some ds_projection \<and>
         py_int L ds_projection = Inr (fst (snd r))"
    by (auto simp: preprocess_dataset_def split: option.splits sum.splits if_splits)
qed

theorem preprocess_dataset_projection_witness:
  "has_var DataVars_MAPPING (example_granule 32628) \<and>
   preprocess_dataset example_lib example_env example_config (example_granule 32628) url_jan =
     Inr (False, 32628, Some 20150805, url_jan, Some (example_granule 32628)) \<and>
   preprocess_dataset example_lib example_env example_config (example_granule 32628) url_jan \<noteq>
     Inl UnsupportedProjection \<and>
   (\<exists>mapping ds_projection.
      map_of (g_vars (example_granule 32628)) DataVars_MAPPING = Some mapping \<and>
      map_of (da_attrs mapping) ''spatial_epsg'' = Some ds_projection \<and>
      py_int example_lib ds_projection = Inr 32628)"
proof -
  have p: "preprocess_dataset example_lib example_env example_config (example_granule 32628) url_jan =
             Inr (False, 32628, Some 20150805, url_jan, Some (example_granule 32628))"
    using read_jan by (simp add: read_dataset_def example_env_def bind_err_def url_other_neq)
  have h: "has_var DataVars_MAPPING (example_granule 32628)"
    by (simp add: has_var_def example_granule_def)
  note T = preprocess_dataset_projection
             [of example_lib example_env example_config "example_granule 32628" url_jan
                 "(False, 32628, Some 20150805, url_jan, Some (example_granule 32628))"]
  from T p have e: "\<exists>mapping ds_projection.
      map_of (g_vars (example_granule 32628)) DataVars_MAPPING = Some mapping \<and>
      map_of (da_attrs mapping) ''spatial_epsg'' = Some ds_projection \<and>
      py_int example_lib ds_projection = Inr 32628" by simp
  from T h have n: "preprocess_dataset example_lib example_env example_config
                      (example_granule 32628) url_jan \<noteq> Inl UnsupportedProjection" by simp
  show ?thesis using p h e n by blast
qed




end
